theory Spec2Isabelle
  imports Main
begin

section \<open>Data model of the TLS relay (ssl\_slave)\<close>

text \<open>
  The relay is the single-threaded program of \<^verbatim>\<open>src/src/filecopy.c\<close> (the part that
  starts at the comment \<^verbatim>\<open>SSL slave related code\<close>). Connection objects live on the C
  heap and are linked through raw pointers, so the model keeps an explicit heap: a pointer
  is a natural number, \<^verbatim>\<open>NULL\<close> is \<open>None\<close>, and reading or writing through a pointer that
  is not allocated is an error value, never an unspecified result.
\<close>

datatype conn_state =
  C_SSL_CONNECTING | C_HOSTNAME_LOOKUP | C_LOCAL_CONNECTING | C_ESTABLISHED | C_SHUTTINGDOWN

record sockaddr_u =
  sa_family :: int
  sa_data :: string

text \<open>\<^verbatim>\<open>struct conn\<close>. The fields \<^verbatim>\<open>next\<close> and \<^verbatim>\<open>prev\<close> are called \<open>c_next\<close> and
  \<open>c_prev\<close> here.\<close>

record conn =
  state :: conn_state
  remote_addrfam :: int
  remote_addrlen :: nat
  remote_addr :: sockaddr_u
  remote_host :: "string option"
  remote_ip :: "string option"
  local_bev :: "nat option"
  remote_bev :: "nat option"
  resolver_req :: "nat option"
  c_next :: "nat option"
  c_prev :: "nat option"

subsection \<open>The libevent interface, as the relay uses it\<close>

text \<open>
  libevent and OpenSSL are not part of the repository. The relay only sees handles, so a
  bufferevent is a record of what the relay can set or observe through the interface:
  its callbacks and their argument, which directions are enabled, the timeouts, the bytes
  waiting to be read (\<open>be_input\<close>), the bytes the relay has taken out with
  \<^verbatim>\<open>bufferevent_read\<close> so far (\<open>be_taken\<close>), and the bytes handed to the transport for
  sending, in the order of the calls (\<open>be_output\<close>). Handles are never reused and a freed
  bufferevent stays in the table with \<open>be_freed\<close> set, so the table also tells what was
  ever created.
\<close>

datatype bev_kind = Plain_socket | Openssl_socket

datatype ev_flag = EV_READ | EV_WRITE

datatype bev_event =
  BEV_EVENT_READING | BEV_EVENT_WRITING | BEV_EVENT_EOF | BEV_EVENT_ERROR
  | BEV_EVENT_TIMEOUT | BEV_EVENT_CONNECTED

datatype data_cb = Pipe_cb

datatype event_cb = Ssl_event_cb

record bufferevent =
  be_kind :: bev_kind
  be_fd :: int
  be_readcb :: "data_cb option"
  be_eventcb :: "event_cb option"
  be_cbarg :: "nat option"
  be_read_enabled :: bool
  be_write_enabled :: bool
  be_timeout_read :: "nat option"
  be_timeout_write :: "nat option"
  be_connecting :: bool
  be_input :: string
  be_taken :: string
  be_output :: string
  be_flushed :: bool
  be_ssl_shutdown :: bool
  be_freed :: bool

datatype req_status = Req_pending | Req_cancelled | Req_done

text \<open>A reverse-lookup request of the resolver; its callback is always
  \<^verbatim>\<open>address_resolved\<close> and \<open>rq_data\<close> is the callback argument.\<close>

record dns_request =
  rq_data :: nat
  rq_status :: req_status

datatype loop_state = Loop_running | Loop_exit | Loop_break

datatype watcher = Watch_signal int | Watch_kqueue int | Watch_timer nat

subsection \<open>Global state\<close>

text \<open>
  The globals of the program (\<^verbatim>\<open>connections\<close>, \<^verbatim>\<open>parent_pid\<close>, \<^verbatim>\<open>socket_file\<close>,
  \<^verbatim>\<open>keepalive_timeout\<close>, \<^verbatim>\<open>main_loop\<close>, \<^verbatim>\<open>resolver\<close>, \<^verbatim>\<open>ssl_sock\<close>), the heap of
  connection objects and the tables of the two libraries. \<open>dns\<close> holds the requests of
  the resolver base \<^verbatim>\<open>resolver\<close>; \<open>ssl_sock_open\<close> tells whether the listening socket
  \<^verbatim>\<open>ssl_sock\<close> is open. \<open>brk\<close>, \<open>bev_brk\<close> and \<open>req_brk\<close> are the next unused addresses
  and handles. \<open>state_log\<close> is a ghost field: for every connection address, the values
  assigned to its \<^verbatim>\<open>state\<close> field, in order.
\<close>

record world =
  heap :: "nat \<rightharpoonup> conn"
  brk :: nat
  connections :: "nat option"
  bevs :: "nat \<rightharpoonup> bufferevent"
  bev_brk :: nat
  dns :: "nat \<rightharpoonup> dns_request"
  req_brk :: nat
  parent_pid :: int
  keepalive_timeout :: int
  socket_file :: "string option"
  main_loop :: loop_state
  watch_parent :: "watcher option"
  sigterm_handler :: "int option"
  ssl_sock_open :: bool
  state_log :: "nat \<Rightarrow> conn_state list"

text \<open>
  What the platform decides and the source does not: constants of system headers, the
  compile-time switches, \<^verbatim>\<open>BUFFER_LEN\<close>, the numeric text \<^verbatim>\<open>ip_convert\<close> produces for a
  socket address, and the value \<^verbatim>\<open>send_with_creds\<close> returns for a socket, a buffer and a
  length (both functions are declared in headers that are not among the sources).
\<close>

record platform =
  BUFFER_LEN :: nat
  AF_INET :: int
  AF_INET6 :: int
  SIGTERM :: int
  SIGUSR1 :: int
  HAVE_PRCTL :: bool
  HAVE_KQUEUE :: bool
  ip_convert :: "sockaddr_u \<Rightarrow> nat \<Rightarrow> string"
  send_with_creds :: "int \<Rightarrow> string \<Rightarrow> int \<Rightarrow> int"

datatype error =
  Use_after_free nat | Null_pointer | Bad_bufferevent nat | Bad_request nat | Out_of_bounds

definition then_do :: "error + 'a \<Rightarrow> ('a \<Rightarrow> error + 'b) \<Rightarrow> error + 'b" where
  "then_do m f = (case m of Inl e \<Rightarrow> Inl e | Inr x \<Rightarrow> f x)"

definition and_then :: "error + 'a \<Rightarrow> ('a \<Rightarrow> (error + 'b) option) \<Rightarrow> (error + 'b) option" where
  "and_then m f = (case m of Inl e \<Rightarrow> Some (Inl e) | Inr x \<Rightarrow> f x)"

definition nonnull :: "'a option \<Rightarrow> error + 'a" where
  "nonnull p = (case p of None \<Rightarrow> Inl Null_pointer | Some x \<Rightarrow> Inr x)"

definition conn_at :: "nat \<Rightarrow> world \<Rightarrow> error + conn" where
  "conn_at c w = (case heap w c of None \<Rightarrow> Inl (Use_after_free c) | Some x \<Rightarrow> Inr x)"

definition upd_conn :: "nat \<Rightarrow> (conn \<Rightarrow> conn) \<Rightarrow> world \<Rightarrow> error + world" where
  "upd_conn c f w =
     (case heap w c of
        None \<Rightarrow> Inl (Use_after_free c)
      | Some x \<Rightarrow> Inr (w\<lparr>heap := (heap w)(c \<mapsto> f x)\<rparr>))"

text \<open>An assignment \<^verbatim>\<open>c->state = s\<close>, recorded in the ghost log.\<close>

definition set_state :: "nat \<Rightarrow> conn_state \<Rightarrow> world \<Rightarrow> error + world" where
  "set_state c s w =
     then_do (upd_conn c (\<lambda>x. x\<lparr>state := s\<rparr>) w)
       (\<lambda>w. Inr (w\<lparr>state_log := (state_log w)(c := state_log w c @ [s])\<rparr>))"

definition bev_at :: "nat \<Rightarrow> world \<Rightarrow> error + bufferevent" where
  "bev_at b w =
     (case bevs w b of
        None \<Rightarrow> Inl (Bad_bufferevent b)
      | Some be \<Rightarrow> if be_freed be then Inl (Bad_bufferevent b) else Inr be)"

definition upd_bev :: "nat \<Rightarrow> (bufferevent \<Rightarrow> bufferevent) \<Rightarrow> world \<Rightarrow> error + world" where
  "upd_bev b f w =
     then_do (bev_at b w) (\<lambda>be. Inr (w\<lparr>bevs := (bevs w)(b \<mapsto> f be)\<rparr>))"

definition new_bufferevent :: "bev_kind \<Rightarrow> int \<Rightarrow> bool \<Rightarrow> bufferevent" where
  "new_bufferevent k fd connecting =
     \<lparr>be_kind = k, be_fd = fd, be_readcb = None, be_eventcb = None, be_cbarg = None,
      be_read_enabled = False, be_write_enabled = True,
      be_timeout_read = None, be_timeout_write = None, be_connecting = connecting,
      be_input = [], be_taken = [], be_output = [], be_flushed = False,
      be_ssl_shutdown = False, be_freed = False\<rparr>"

text \<open>\<^verbatim>\<open>bufferevent_socket_new(main_loop, fd, ...)\<close>: a new plain bufferevent.\<close>

definition bufferevent_socket_new :: "int \<Rightarrow> world \<Rightarrow> nat \<times> world" where
  "bufferevent_socket_new fd w =
     (bev_brk w,
      w\<lparr>bevs := (bevs w)(bev_brk w \<mapsto> new_bufferevent Plain_socket fd False),
        bev_brk := Suc (bev_brk w)\<rparr>)"

text \<open>\<^verbatim>\<open>bufferevent_openssl_socket_new(main_loop, fd, ssl, BUFFEREVENT_SSL_ACCEPTING, ...)\<close>:
  a new TLS bufferevent whose handshake is in progress.\<close>

definition bufferevent_openssl_socket_new :: "int \<Rightarrow> world \<Rightarrow> nat \<times> world" where
  "bufferevent_openssl_socket_new fd w =
     (bev_brk w,
      w\<lparr>bevs := (bevs w)(bev_brk w \<mapsto> new_bufferevent Openssl_socket fd True),
        bev_brk := Suc (bev_brk w)\<rparr>)"

text \<open>\<^verbatim>\<open>bufferevent_socket_connect\<close> on a bufferevent without a socket: the library
  opens one (named after the handle here) and starts to connect.\<close>

definition bufferevent_socket_connect :: "nat \<Rightarrow> world \<Rightarrow> error + world" where
  "bufferevent_socket_connect b w =
     upd_bev b (\<lambda>be. be\<lparr>be_fd := int b, be_connecting := True\<rparr>) w"

definition bufferevent_setcb ::
  "nat \<Rightarrow> data_cb option \<Rightarrow> event_cb option \<Rightarrow> nat \<Rightarrow> world \<Rightarrow> error + world" where
  "bufferevent_setcb b readcb eventcb cbarg w =
     upd_bev b (\<lambda>be. be\<lparr>be_readcb := readcb, be_eventcb := eventcb, be_cbarg := Some cbarg\<rparr>) w"

definition bufferevent_enable :: "nat \<Rightarrow> ev_flag set \<Rightarrow> world \<Rightarrow> error + world" where
  "bufferevent_enable b ev w =
     upd_bev b (\<lambda>be. be\<lparr>be_read_enabled := (EV_READ \<in> ev \<or> be_read_enabled be),
                         be_write_enabled := (EV_WRITE \<in> ev \<or> be_write_enabled be)\<rparr>) w"

definition bufferevent_disable :: "nat \<Rightarrow> ev_flag set \<Rightarrow> world \<Rightarrow> error + world" where
  "bufferevent_disable b ev w =
     upd_bev b (\<lambda>be. be\<lparr>be_read_enabled := (EV_READ \<notin> ev \<and> be_read_enabled be),
                         be_write_enabled := (EV_WRITE \<notin> ev \<and> be_write_enabled be)\<rparr>) w"

definition bufferevent_set_timeouts ::
  "nat \<Rightarrow> nat option \<Rightarrow> nat option \<Rightarrow> world \<Rightarrow> error + world" where
  "bufferevent_set_timeouts b tr tw w =
     upd_bev b (\<lambda>be. be\<lparr>be_timeout_read := tr, be_timeout_write := tw\<rparr>) w"

text \<open>\<^verbatim>\<open>bufferevent_flush(bev, EV_WRITE, BEV_FINISHED)\<close>.\<close>

definition bufferevent_flush :: "nat \<Rightarrow> world \<Rightarrow> error + world" where
  "bufferevent_flush b w = upd_bev b (\<lambda>be. be\<lparr>be_flushed := True\<rparr>) w"

definition bufferevent_free :: "nat \<Rightarrow> world \<Rightarrow> error + world" where
  "bufferevent_free b w = upd_bev b (\<lambda>be. be\<lparr>be_freed := True\<rparr>) w"

text \<open>\<^verbatim>\<open>SSL_shutdown(bufferevent_openssl_get_ssl(bev))\<close>.\<close>

definition SSL_shutdown :: "nat \<Rightarrow> world \<Rightarrow> error + world" where
  "SSL_shutdown b w = upd_bev b (\<lambda>be. be\<lparr>be_ssl_shutdown := True\<rparr>) w"

text \<open>\<^verbatim>\<open>bufferevent_read(bev, buff, size)\<close> removes at most \<open>size\<close> bytes from the front
  of the input and returns them.\<close>

definition bufferevent_read :: "nat \<Rightarrow> nat \<Rightarrow> world \<Rightarrow> error + (string \<times> world)" where
  "bufferevent_read b sz w =
     then_do (bev_at b w) (\<lambda>be.
       let buff = take sz (be_input be) in
       Inr (buff,
            w\<lparr>bevs := (bevs w)(b \<mapsto> be\<lparr>be_input := drop sz (be_input be),
                                        be_taken := be_taken be @ buff\<rparr>)\<rparr>))"

text \<open>\<^verbatim>\<open>bufferevent_write(bev, data, len)\<close> appends to the output and returns 0; the
  library's own failure (it cannot grow the buffer) is not modelled, so the return value
  is negative only for a handle that is not a live bufferevent.\<close>

definition bufferevent_write :: "nat \<Rightarrow> string \<Rightarrow> world \<Rightarrow> int \<times> world" where
  "bufferevent_write b buff w =
     (case upd_bev b (\<lambda>be. be\<lparr>be_output := be_output be @ buff\<rparr>) w of
        Inl e \<Rightarrow> (- 1, w)
      | Inr w' \<Rightarrow> (0, w'))"

text \<open>Bytes sent on the socket of a bufferevent directly (\<^verbatim>\<open>send_with_creds\<close> on
  \<^verbatim>\<open>bufferevent_getfd(bev)\<close>): a return value \<open>r \<ge> 0\<close> means that the first \<open>r\<close> bytes
  went out, a negative one that nothing did.\<close>

definition socket_sent :: "nat \<Rightarrow> string \<Rightarrow> int \<Rightarrow> world \<Rightarrow> error + world" where
  "socket_sent b buff r w =
     upd_bev b (\<lambda>be. be\<lparr>be_output := be_output be @ take (nat r) buff\<rparr>) w"

definition DNS_ERR_NONE :: int where "DNS_ERR_NONE = 0"
definition DNS_ERR_CANCEL :: int where "DNS_ERR_CANCEL = 69"
definition DNS_PTR :: int where "DNS_PTR = 2"
definition EV_SIGNAL :: int where "EV_SIGNAL = 8"
definition EXIT_SUCCESS :: int where "EXIT_SUCCESS = 0"
definition EXIT_FAILURE :: int where "EXIT_FAILURE = 1"

text \<open>\<^verbatim>\<open>evdns_base_resolve_reverse\<close> and \<^verbatim>\<open>evdns_base_resolve_reverse_ipv6\<close>: a new
  pending request.\<close>

definition evdns_base_resolve_reverse :: "nat \<Rightarrow> world \<Rightarrow> nat option \<times> world" where
  "evdns_base_resolve_reverse cbarg w =
     (Some (req_brk w),
      w\<lparr>dns := (dns w)(req_brk w \<mapsto> \<lparr>rq_data = cbarg, rq_status = Req_pending\<rparr>),
        req_brk := Suc (req_brk w)\<rparr>)"

definition evdns_base_resolve_reverse_ipv6 :: "nat \<Rightarrow> world \<Rightarrow> nat option \<times> world" where
  "evdns_base_resolve_reverse_ipv6 cbarg w = evdns_base_resolve_reverse cbarg w"

text \<open>\<^verbatim>\<open>evdns_cancel_request\<close>: a pending request becomes cancelled; the library then
  completes it by calling its callback with \<^verbatim>\<open>DNS_ERR_CANCEL\<close> (the case the callback
  \<^verbatim>\<open>address_resolved\<close> tests for).\<close>

definition evdns_cancel_request :: "nat \<Rightarrow> world \<Rightarrow> error + world" where
  "evdns_cancel_request r w =
     (case dns w r of
        None \<Rightarrow> Inl (Bad_request r)
      | Some rq \<Rightarrow>
          Inr (if rq_status rq = Req_pending
               then w\<lparr>dns := (dns w)(r \<mapsto> rq\<lparr>rq_status := Req_cancelled\<rparr>)\<rparr>
               else w))"

section \<open>The functions of the relay\<close>

text \<open>\<^verbatim>\<open>alloc_conn\<close>: \<^verbatim>\<open>malloc\<close> and \<^verbatim>\<open>memset(c, 0, sizeof *c)\<close>. The first enumerator
  of \<^verbatim>\<open>enum conn_state\<close> is \<^verbatim>\<open>C_SSL_CONNECTING\<close>.\<close>

definition zero_conn :: conn where
  "zero_conn =
     \<lparr>state = C_SSL_CONNECTING, remote_addrfam = 0, remote_addrlen = 0,
      remote_addr = \<lparr>sa_family = 0, sa_data = []\<rparr>,
      remote_host = None, remote_ip = None, local_bev = None, remote_bev = None,
      resolver_req = None, c_next = None, c_prev = None\<rparr>"

definition alloc_conn :: "world \<Rightarrow> nat \<times> world" where
  "alloc_conn w = (brk w, w\<lparr>heap := (heap w)(brk w \<mapsto> zero_conn), brk := Suc (brk w)\<rparr>)"

definition free_conn :: "nat \<Rightarrow> world \<Rightarrow> error + world" where
  "free_conn c w =
     then_do (conn_at c w) (\<lambda>x.
     then_do (case local_bev x of Some b \<Rightarrow> bufferevent_free b w | None \<Rightarrow> Inr w) (\<lambda>w.
     then_do (case remote_bev x of Some b \<Rightarrow> bufferevent_free b w | None \<Rightarrow> Inr w) (\<lambda>w.
     then_do (case resolver_req x of Some r \<Rightarrow> evdns_cancel_request r w | None \<Rightarrow> Inr w) (\<lambda>w.
     Inr (w\<lparr>heap := (heap w)(c := None)\<rparr>)))))"

text \<open>The body of the \<^verbatim>\<open>if (curr == c)\<close> of \<^verbatim>\<open>delete_conn\<close>: unlink and free.\<close>

definition unlink_conn :: "nat \<Rightarrow> conn \<Rightarrow> world \<Rightarrow> error + world" where
  "unlink_conn c cur w =
     (let nxt = c_next cur in
      then_do
        (case c_prev cur of
           Some p \<Rightarrow>
             then_do (upd_conn p (\<lambda>x. x\<lparr>c_next := nxt\<rparr>) w) (\<lambda>w.
               case nxt of
                 Some n \<Rightarrow> upd_conn n (\<lambda>x. x\<lparr>c_prev := Some p\<rparr>) w
               | None \<Rightarrow> Inr w)
         | None \<Rightarrow>
             (let w = w\<lparr>connections := nxt\<rparr> in
              case connections w of
                Some n \<Rightarrow> upd_conn n (\<lambda>x. x\<lparr>c_prev := None\<rparr>) w
              | None \<Rightarrow> Inr w))
        (free_conn c))"

partial_function (option) delete_conn_loop ::
  "nat \<Rightarrow> nat option \<Rightarrow> world \<Rightarrow> (error + world) option" where
  "delete_conn_loop c cur_p w =
     (case cur_p of
        None \<Rightarrow> Some (Inr w)
      | Some p \<Rightarrow>
          (case heap w p of
             None \<Rightarrow> Some (Inl (Use_after_free p))
           | Some cur \<Rightarrow>
               if p = c then Some (unlink_conn c cur w)
               else delete_conn_loop c (c_next cur) w))"

declare delete_conn_loop.simps [code]

definition delete_conn :: "nat \<Rightarrow> world \<Rightarrow> (error + world) option" where
  "delete_conn c w = delete_conn_loop c (connections w) w"

text \<open>\<^verbatim>\<open>evdns_getnameinfo\<close>; the callback is always \<^verbatim>\<open>address_resolved\<close>.\<close>

definition evdns_getnameinfo :: "platform \<Rightarrow> sockaddr_u \<Rightarrow> nat \<Rightarrow> world \<Rightarrow> nat option \<times> world" where
  "evdns_getnameinfo P addr cbarg w =
     (if sa_family addr = AF_INET P then evdns_base_resolve_reverse cbarg w
      else if sa_family addr = AF_INET6 P then evdns_base_resolve_reverse_ipv6 cbarg w
      else (None, w))"

definition pipe_cb :: "platform \<Rightarrow> nat \<Rightarrow> nat \<Rightarrow> world \<Rightarrow> error + world" where
  "pipe_cb P from_bev c w =
     then_do (conn_at c w) (\<lambda>x.
       let to_bev = (if local_bev x = Some from_bev then remote_bev x else local_bev x) in
       then_do (bufferevent_read from_bev (BUFFER_LEN P) w) (\<lambda>(buff, w).
         case to_bev of
           Some t \<Rightarrow>
             if length buff > 0 then Inr (snd (bufferevent_write t buff w)) else Inr w
         | None \<Rightarrow> Inr w))"

definition local_connected :: "platform \<Rightarrow> nat \<Rightarrow> world \<Rightarrow> (error + world) option" where
  "local_connected P c w =
     and_then (conn_at c w) (\<lambda>x.
     and_then (nonnull (local_bev x)) (\<lambda>lb.
     and_then (bufferevent_setcb lb (Some Pipe_cb) (Some Ssl_event_cb) c w) (\<lambda>w.
     and_then (bufferevent_enable lb {EV_READ, EV_WRITE} w) (\<lambda>w.
     and_then (nonnull (remote_bev x)) (\<lambda>rb.
     and_then (bufferevent_setcb rb (Some Pipe_cb) (Some Ssl_event_cb) c w) (\<lambda>w.
     and_then (bufferevent_enable rb {EV_READ, EV_WRITE} w) (\<lambda>w.
     and_then (set_state c C_ESTABLISHED w) (\<lambda>w.
     and_then (nonnull (remote_host x)) (\<lambda>host.
     and_then (nonnull (remote_ip x)) (\<lambda>ip.
     and_then (bev_at lb w) (\<lambda>lbe.
       let len = int (length host) + int (length ip) + 3;
           hostid = take (nat len) (ip @ ''^'' @ host @ [CHR 0x0D, CHR 0x0A]);
           r = send_with_creds P (be_fd lbe) hostid len
       in and_then (socket_sent lb hostid r w) (\<lambda>w.
            if r < 0 then delete_conn c w else Some (Inr w)))))))))))))"

text \<open>The condition under which \<^verbatim>\<open>address_resolved\<close> falls back to the numeric
  address.\<close>

definition lookup_failed :: "int \<Rightarrow> int \<Rightarrow> int \<Rightarrow> string list option \<Rightarrow> bool" where
  "lookup_failed result rtype count addresses =
     (result \<noteq> DNS_ERR_NONE \<or> addresses = None \<or> rtype \<noteq> DNS_PTR \<or> count = 0)"

definition address_resolved ::
  "platform \<Rightarrow> int \<Rightarrow> int \<Rightarrow> int \<Rightarrow> string list option \<Rightarrow> nat \<Rightarrow> world \<Rightarrow> error + world" where
  "address_resolved P result rtype count addresses c w =
     then_do (upd_conn c (\<lambda>x. x\<lparr>resolver_req := None\<rparr>) w) (\<lambda>w.
       if result = DNS_ERR_CANCEL then Inr w
       else
         then_do (conn_at c w) (\<lambda>x.
         then_do
           (if lookup_failed result rtype count addresses
            then
              (let ipaddr = ip_convert P (remote_addr x) (remote_addrlen x) in
               then_do (upd_conn c (\<lambda>x. x\<lparr>remote_host := Some ipaddr\<rparr>) w)
                 (upd_conn c (\<lambda>x. x\<lparr>remote_ip := Some ipaddr\<rparr>)))
            else
              (case addresses of
                 Some (hostname # _) \<Rightarrow>
                   then_do (upd_conn c (\<lambda>x. x\<lparr>remote_host := Some hostname\<rparr>) w) (\<lambda>w.
                     let ipaddr = ip_convert P (remote_addr x) (remote_addrlen x) in
                     upd_conn c (\<lambda>x. x\<lparr>remote_ip := Some ipaddr\<rparr>) w)
               | _ \<Rightarrow> Inl Out_of_bounds))
           (\<lambda>w.
         then_do (set_state c C_LOCAL_CONNECTING w) (\<lambda>w.
           let (b, w) = bufferevent_socket_new (- 1) w in
           then_do (upd_conn c (\<lambda>x. x\<lparr>local_bev := Some b\<rparr>) w) (\<lambda>w.
           then_do (bufferevent_socket_connect b w) (\<lambda>w.
           then_do (bufferevent_setcb b None (Some Ssl_event_cb) c w) (\<lambda>w.
           bufferevent_enable b {EV_WRITE} w)))))))"

definition ssl_connected :: "platform \<Rightarrow> nat \<Rightarrow> world \<Rightarrow> error + world" where
  "ssl_connected P c w =
     then_do (conn_at c w) (\<lambda>x.
     then_do (nonnull (remote_bev x)) (\<lambda>rb.
     then_do (bufferevent_set_timeouts rb None None w) (\<lambda>w.
     then_do (set_state c C_HOSTNAME_LOOKUP w) (\<lambda>w.
       let (req, w) = evdns_getnameinfo P (remote_addr x) c w in
       upd_conn c (\<lambda>x. x\<lparr>resolver_req := req\<rparr>) w))))"

text \<open>The branch of \<^verbatim>\<open>ssl_event_cb\<close> taken when the remote side went away or the
  handshake timed out, and the branch for the local side.\<close>

definition drop_remote :: "nat \<Rightarrow> world \<Rightarrow> (error + world) option" where
  "drop_remote c w =
     and_then (conn_at c w) (\<lambda>x.
     and_then (nonnull (remote_bev x)) (\<lambda>rb.
     and_then (bufferevent_disable rb {EV_READ, EV_WRITE} w) (\<lambda>w.
     and_then (bufferevent_free rb w) (\<lambda>w.
     and_then (upd_conn c (\<lambda>x. x\<lparr>remote_bev := None\<rparr>) w) (\<lambda>w.
     and_then (set_state c C_SHUTTINGDOWN w) (\<lambda>w.
     and_then
       (case local_bev x of
          Some lb \<Rightarrow> then_do (bufferevent_disable lb {EV_READ} w) (bufferevent_flush lb)
        | None \<Rightarrow> Inr w)
       (delete_conn c)))))))"

definition drop_local :: "nat \<Rightarrow> world \<Rightarrow> (error + world) option" where
  "drop_local c w =
     and_then (conn_at c w) (\<lambda>x.
     and_then (nonnull (local_bev x)) (\<lambda>lb.
     and_then (bufferevent_disable lb {EV_READ, EV_WRITE} w) (\<lambda>w.
     and_then (bufferevent_free lb w) (\<lambda>w.
     and_then (upd_conn c (\<lambda>x. x\<lparr>local_bev := None\<rparr>) w) (\<lambda>w.
     and_then (set_state c C_SHUTTINGDOWN w) (\<lambda>w.
     and_then
       (case remote_bev x of
          Some rb \<Rightarrow>
            then_do (bufferevent_disable rb {EV_READ} w) (\<lambda>w.
            then_do (bufferevent_flush rb w) (SSL_shutdown rb))
        | None \<Rightarrow> Inr w)
       (delete_conn c)))))))"

definition error_conditions :: "bev_event set" where
  "error_conditions = {BEV_EVENT_EOF, BEV_EVENT_ERROR, BEV_EVENT_TIMEOUT}"

definition ssl_event_cb ::
  "platform \<Rightarrow> nat \<Rightarrow> bev_event set \<Rightarrow> nat \<Rightarrow> world \<Rightarrow> (error + world) option" where
  "ssl_event_cb P bev e c w =
     and_then (conn_at c w) (\<lambda>x.
       if BEV_EVENT_CONNECTED \<in> e then
         (if local_bev x = Some bev then local_connected P c w
          else Some (ssl_connected P c w))
       else if BEV_EVENT_TIMEOUT \<in> e then
         (if state x = C_SSL_CONNECTING then drop_remote c w
          else Some (Inr w))
       else if e \<inter> error_conditions \<noteq> {} then
         (if local_bev x = Some bev then drop_local c w
          else drop_remote c w)
       else Some (Inr w))"

text \<open>What \<^verbatim>\<open>accept\<close> returned: the descriptor (negative on failure) and, on success,
  the peer address and its length.\<close>

record accept_result =
  acc_fd :: int
  acc_addr :: sockaddr_u
  acc_addrlen :: nat

text \<open>\<^verbatim>\<open>new_ssl_conn_cb\<close>. \<open>have_bev\<close> tells whether
  \<^verbatim>\<open>bufferevent_openssl_socket_new\<close> returned a bufferevent. \<^verbatim>\<open>set_keepalive\<close> and
  \<^verbatim>\<open>make_nonblocking\<close> only set options of the socket.\<close>

definition new_ssl_conn_cb ::
  "platform \<Rightarrow> accept_result \<Rightarrow> bool \<Rightarrow> world \<Rightarrow> (error + world) option" where
  "new_ssl_conn_cb P acc have_bev w =
     (let (c, w) = alloc_conn w in
      and_then
        (case connections w of
           Some h \<Rightarrow> upd_conn h (\<lambda>x. x\<lparr>c_prev := Some c\<rparr>) w
         | None \<Rightarrow> Inr w) (\<lambda>w.
      and_then (upd_conn c (\<lambda>x. x\<lparr>c_next := connections w\<rparr>) w) (\<lambda>w.
      let w = w\<lparr>connections := Some c\<rparr> in
      and_then (set_state c C_SSL_CONNECTING w) (\<lambda>w.
        if acc_fd acc < 0 then delete_conn c w
        else
          and_then (upd_conn c (\<lambda>x. x\<lparr>remote_addr := acc_addr acc,
                                        remote_addrlen := acc_addrlen acc\<rparr>) w) (\<lambda>w.
            if \<not> have_bev then delete_conn c w
            else
              (let (b, w) = bufferevent_openssl_socket_new (acc_fd acc) w in
               Some
                 (then_do (upd_conn c (\<lambda>x. x\<lparr>remote_bev := Some b\<rparr>) w) (\<lambda>w.
                  then_do (bufferevent_setcb b None (Some Ssl_event_cb) c w) (\<lambda>w.
                  then_do (bufferevent_set_timeouts b (Some 60) (Some 60) w) (\<lambda>w.
                  bufferevent_enable b {EV_WRITE} w))))))))))"

text \<open>The body of the loop of \<^verbatim>\<open>close_connections\<close> for the connection \<open>p\<close>; it
  returns \<^verbatim>\<open>p->next\<close> with the new state.\<close>

definition close_one :: "bool \<Rightarrow> nat \<Rightarrow> world \<Rightarrow> error + (nat option \<times> world)" where
  "close_one flush_local p w =
     then_do (set_state p C_SHUTTINGDOWN w) (\<lambda>w.
     then_do (conn_at p w) (\<lambda>x.
     then_do
       (case remote_bev x of
          Some rb \<Rightarrow> then_do (bufferevent_disable rb {EV_READ} w) (bufferevent_flush rb)
        | None \<Rightarrow> Inr w) (\<lambda>w.
     then_do
       (case (if flush_local then local_bev x else None) of
          Some lb \<Rightarrow> then_do (bufferevent_disable lb {EV_READ} w) (bufferevent_flush lb)
        | None \<Rightarrow> Inr w) (\<lambda>w. Inr (c_next x, w)))))"

partial_function (option) close_connections_loop ::
  "bool \<Rightarrow> nat option \<Rightarrow> world \<Rightarrow> (error + world) option" where
  "close_connections_loop flush_local c w =
     (case c of
        None \<Rightarrow> Some (Inr w)
      | Some p \<Rightarrow>
          (case close_one flush_local p w of
             Inl e \<Rightarrow> Some (Inl e)
           | Inr (nxt, w) \<Rightarrow> close_connections_loop flush_local nxt w))"

declare close_connections_loop.simps [code]

definition close_connections :: "bool \<Rightarrow> world \<Rightarrow> (error + world) option" where
  "close_connections flush_local w = close_connections_loop flush_local (connections w) w"

text \<open>\<^verbatim>\<open>event_base_loopbreak\<close> and \<^verbatim>\<open>event_base_loopexit(main_loop, NULL)\<close>.\<close>

definition event_base_loopbreak :: "world \<Rightarrow> world" where
  "event_base_loopbreak w = w\<lparr>main_loop := Loop_break\<rparr>"

definition event_base_loopexit :: "world \<Rightarrow> world" where
  "event_base_loopexit w = (if main_loop w = Loop_break then w else w\<lparr>main_loop := Loop_exit\<rparr>)"

text \<open>\<^verbatim>\<open>check_parent\<close>; the argument is what \<^verbatim>\<open>getppid()\<close> returns.\<close>

definition check_parent :: "int \<Rightarrow> world \<Rightarrow> (error + world) option" where
  "check_parent ppid w =
     (if ppid \<noteq> parent_pid w then
        (case close_connections False w of
           None \<Rightarrow> None
         | Some r \<Rightarrow> Some (then_do r (\<lambda>w. Inr (event_base_loopbreak w))))
      else Some (Inr w))"

text \<open>\<^verbatim>\<open>shutdown_cb(fd, what, arg)\<close>.\<close>

definition shutdown_cb :: "platform \<Rightarrow> int \<Rightarrow> int \<Rightarrow> world \<Rightarrow> (error + world) option" where
  "shutdown_cb P fd what w =
     (let flush_local = (if what = SIGTERM P then True
                         else if what = SIGUSR1 P then False else True) in
      case close_connections flush_local w of
        None \<Rightarrow> None
      | Some r \<Rightarrow> Some (then_do r (\<lambda>w. Inr (event_base_loopexit w))))"

text \<open>\<^verbatim>\<open>check_parent_kqueue\<close> (compiled with \<^verbatim>\<open>HAVE_KQUEUE\<close>): \<open>r\<close> is what \<^verbatim>\<open>kevent\<close>
  returned, \<open>is_exit\<close> tells whether the event has filter \<^verbatim>\<open>EVFILT_PROC\<close> and flags
  \<^verbatim>\<open>NOTE_EXIT\<close>, and \<open>ident\<close> is its identifier.\<close>

definition check_parent_kqueue :: "int \<Rightarrow> bool \<Rightarrow> int \<Rightarrow> world \<Rightarrow> (error + world) option" where
  "check_parent_kqueue r is_exit ident w =
     (if r = 1 \<and> is_exit \<and> ident = parent_pid w then
        (case close_connections False w of
           None \<Rightarrow> None
         | Some r \<Rightarrow> Some (then_do r (\<lambda>w. Inr (event_base_loopbreak w))))
      else Some (Inr w))"

section \<open>The event loop\<close>

text \<open>
  What the event loop can hand to the program. The loop calls a callback only where the
  program registered one, with the argument it registered:
  \<^item> \<open>Listener_ready\<close>: the listening socket is readable; \<^verbatim>\<open>new_ssl_conn_cb\<close> runs.
  \<^item> \<open>Bev_event b e\<close>: the event callback of the live bufferevent \<open>b\<close> runs with the
    flags \<open>e\<close>. \<^verbatim>\<open>BEV_EVENT_CONNECTED\<close> is reported only for a bufferevent whose
    handshake or connect is in progress, and ends it.
  \<^item> \<open>Bev_data b d\<close>: the bytes \<open>d\<close> arrive on \<open>b\<close>, which is live and enabled for
    reading; its read callback runs if it has one.
  \<^item> \<open>Dns_done r ...\<close>: the resolver completes request \<open>r\<close>. A pending request
    completes with the given result (which is not \<^verbatim>\<open>DNS_ERR_CANCEL\<close>), a cancelled one
    with \<^verbatim>\<open>DNS_ERR_CANCEL\<close>; a request completes once.
  \<^item> \<open>Timer_tick ppid\<close>: the periodic timer fires, and \<^verbatim>\<open>getppid()\<close> returns \<open>ppid\<close>.
  \<^item> \<open>Signal s\<close>: signal \<open>s\<close> arrived; libevent calls a signal callback with the signal
    number as \<^verbatim>\<open>fd\<close> and \<^verbatim>\<open>EV_SIGNAL\<close> as \<^verbatim>\<open>what\<close>.
  \<^item> \<open>Kqueue_ready\<close>: the kqueue descriptor is readable.
\<close>

datatype event =
    Listener_ready accept_result bool
  | Bev_event nat "bev_event set"
  | Bev_data nat string
  | Dns_done nat int int int "string list option"
  | Timer_tick int
  | Signal int
  | Kqueue_ready int bool int

definition fire_bev_event ::
  "platform \<Rightarrow> nat \<Rightarrow> bev_event set \<Rightarrow> world \<Rightarrow> (error + world) option" where
  "fire_bev_event P b e w =
     (case bev_at b w of
        Inl err \<Rightarrow> Some (Inr w)
      | Inr be \<Rightarrow>
          (case (be_eventcb be, be_cbarg be) of
             (Some Ssl_event_cb, Some c) \<Rightarrow>
               if BEV_EVENT_CONNECTED \<in> e then
                 (if be_connecting be
                  then ssl_event_cb P b e c
                         (w\<lparr>bevs := (bevs w)(b \<mapsto> be\<lparr>be_connecting := False\<rparr>)\<rparr>)
                  else Some (Inr w))
               else ssl_event_cb P b e c w
           | _ \<Rightarrow> Some (Inr w)))"

definition fire_bev_data :: "platform \<Rightarrow> nat \<Rightarrow> string \<Rightarrow> world \<Rightarrow> error + world" where
  "fire_bev_data P b d w =
     (case bev_at b w of
        Inl err \<Rightarrow> Inr w
      | Inr be \<Rightarrow>
          if be_read_enabled be then
            (let w = w\<lparr>bevs := (bevs w)(b \<mapsto> be\<lparr>be_input := be_input be @ d\<rparr>)\<rparr> in
             case (be_readcb be, be_cbarg be) of
               (Some Pipe_cb, Some c) \<Rightarrow> pipe_cb P b c w
             | _ \<Rightarrow> Inr w)
          else Inr w)"

definition fire_dns_done ::
  "platform \<Rightarrow> nat \<Rightarrow> int \<Rightarrow> int \<Rightarrow> int \<Rightarrow> string list option \<Rightarrow> world \<Rightarrow> error + world" where
  "fire_dns_done P r result rtype count addresses w =
     (case dns w r of
        None \<Rightarrow> Inr w
      | Some rq \<Rightarrow>
          (let w' = w\<lparr>dns := (dns w)(r \<mapsto> rq\<lparr>rq_status := Req_done\<rparr>)\<rparr> in
           case rq_status rq of
             Req_pending \<Rightarrow>
               if result = DNS_ERR_CANCEL then Inr w
               else address_resolved P result rtype count addresses (rq_data rq) w'
           | Req_cancelled \<Rightarrow> address_resolved P DNS_ERR_CANCEL 0 0 None (rq_data rq) w'
           | Req_done \<Rightarrow> Inr w))"

fun is_timer :: "watcher option \<Rightarrow> bool" where
  "is_timer (Some (Watch_timer n)) = True"
| "is_timer _ = False"

fun is_kqueue :: "watcher option \<Rightarrow> bool" where
  "is_kqueue (Some (Watch_kqueue n)) = True"
| "is_kqueue _ = False"

fun fire :: "platform \<Rightarrow> world \<Rightarrow> event \<Rightarrow> (error + world) option" where
  "fire P w (Listener_ready acc have_bev) = new_ssl_conn_cb P acc have_bev w"
| "fire P w (Bev_event b e) = fire_bev_event P b e w"
| "fire P w (Bev_data b d) = Some (fire_bev_data P b d w)"
| "fire P w (Dns_done r result rtype count addresses) =
     Some (fire_dns_done P r result rtype count addresses w)"
| "fire P w (Timer_tick ppid) =
     (if is_timer (watch_parent w) then check_parent ppid w else Some (Inr w))"
| "fire P w (Signal s) =
     (if watch_parent w = Some (Watch_signal s) \<or> sigterm_handler w = Some s
      then shutdown_cb P s EV_SIGNAL w else Some (Inr w))"
| "fire P w (Kqueue_ready r is_exit ident) =
     (if is_kqueue (watch_parent w) then check_parent_kqueue r is_exit ident w
      else Some (Inr w))"

text \<open>
  \<^verbatim>\<open>event_base_dispatch\<close> on the events that become ready, in order. After
  \<^verbatim>\<open>event_base_loopbreak\<close> the loop returns at once; after
  \<^verbatim>\<open>event_base_loopexit(main_loop, NULL)\<close> it still runs the callbacks that are
  already active, which are the rest of the list.
\<close>

fun run :: "platform \<Rightarrow> world \<Rightarrow> event list \<Rightarrow> (error + world) option" where
  "run P w [] = Some (Inr w)"
| "run P w (ev # evs) =
     (if main_loop w = Loop_break then Some (Inr w)
      else
        (case fire P w ev of
           None \<Rightarrow> None
         | Some (Inl err) \<Rightarrow> Some (Inl err)
         | Some (Inr w') \<Rightarrow> run P w' evs))"

section \<open>The main program\<close>

text \<open>Modelled from the spec: \<^verbatim>\<open>struct ssl_slave_config\<close> is declared in
  \<^verbatim>\<open>ssl_slave.h\<close>, which is not among the sources; the fields are those the
  specification lists for the configuration record, under the names \<^verbatim>\<open>main\<close> uses.\<close>

record ssl_slave_config =
  private_key_file :: string
  certificate_file :: string
  ca_file :: string
  ca_dir :: string
  require_client_cert :: bool
  ssl_port :: int
  ssl_ip_addr :: string
  cf_socket_file :: string
  cf_keepalive_timeout :: int

text \<open>
  What \<^verbatim>\<open>main\<close> gets from outside before the loop starts: the return value of
  \<^verbatim>\<open>read(0, &cf, sizeof cf)\<close> and the record it left in \<^verbatim>\<open>cf\<close>, the parent's process
  id, whether \<^verbatim>\<open>ssl_init\<close> succeeded, and the return values of \<^verbatim>\<open>prctl\<close>, \<^verbatim>\<open>kqueue\<close>
  and \<^verbatim>\<open>kevent\<close>.
\<close>

record startup =
  read_len :: int
  cf :: ssl_slave_config
  getppid :: int
  ssl_init :: bool
  prctl :: int
  kqueue :: int
  kevent :: int

definition install_parent_watcher :: "platform \<Rightarrow> startup \<Rightarrow> watcher option" where
  "install_parent_watcher P env =
     (if HAVE_PRCTL P then
        (if prctl env = 0 then Some (Watch_signal (SIGUSR1 P)) else None)
      else if HAVE_KQUEUE P then
        (if kqueue env \<ge> 0 \<and> kevent env \<ge> 0 then Some (Watch_kqueue (kqueue env)) else None)
      else None)"

text \<open>\<^verbatim>\<open>main\<close> up to \<^verbatim>\<open>event_base_dispatch\<close>: \<open>Inl\<close> is the exit status of a process that
  ends before the loop, \<open>Inr\<close> the state in which the loop starts.\<close>

definition main_startup :: "platform \<Rightarrow> startup \<Rightarrow> int + world" where
  "main_startup P env =
     (if read_len env < 0 then Inl EXIT_FAILURE
      else if \<not> ssl_init env then Inl EXIT_FAILURE
      else
        Inr \<lparr>heap = Map.empty, brk = 0, connections = None,
             bevs = Map.empty, bev_brk = 0, dns = Map.empty, req_brk = 0,
             parent_pid = getppid env, keepalive_timeout = 300,
             socket_file = Some (cf_socket_file (cf env)),
             main_loop = Loop_running,
             watch_parent =
               (case install_parent_watcher P env of
                  Some wt \<Rightarrow> Some wt
                | None \<Rightarrow> Some (Watch_timer 5)),
             sigterm_handler = Some (SIGTERM P),
             ssl_sock_open = True,
             state_log = (\<lambda>c. [])\<rparr>)"

text \<open>The loop of \<^verbatim>\<open>main\<close> after \<^verbatim>\<open>event_base_dispatch\<close> has returned.\<close>

definition cleanup_one :: "nat \<Rightarrow> world \<Rightarrow> error + (nat option \<times> world)" where
  "cleanup_one p w =
     then_do (conn_at p w) (\<lambda>x.
     then_do (case remote_bev x of Some rb \<Rightarrow> SSL_shutdown rb w | None \<Rightarrow> Inr w) (\<lambda>w.
     then_do (free_conn p w) (\<lambda>w. Inr (c_next x, w))))"

partial_function (option) main_cleanup :: "nat option \<Rightarrow> world \<Rightarrow> (error + world) option" where
  "main_cleanup c w =
     (case c of
        None \<Rightarrow> Some (Inr w)
      | Some p \<Rightarrow>
          (case cleanup_one p w of
             Inl e \<Rightarrow> Some (Inl e)
           | Inr (n, w) \<Rightarrow> main_cleanup n w))"

declare main_cleanup.simps [code]

text \<open>\<^verbatim>\<open>close(ssl_sock)\<close>.\<close>

definition close_ssl_sock :: "world \<Rightarrow> world" where
  "close_ssl_sock w = w\<lparr>ssl_sock_open := False\<rparr>"

text \<open>\<^verbatim>\<open>evdns_base_free(resolver, 0)\<close>: the base is freed together with every request it
  still holds, and no callback is called for them. No handle of the base is a request
  afterwards, so that \<^verbatim>\<open>evdns_cancel_request\<close> on one of them is the error
  \<open>Bad_request\<close>.\<close>

definition evdns_base_free :: "world \<Rightarrow> world" where
  "evdns_base_free w = w\<lparr>dns := Map.empty\<rparr>"

text \<open>\<^verbatim>\<open>main\<close> from \<^verbatim>\<open>event_base_dispatch\<close> on, entered in the state \<open>w\<close>: the loop runs
  on the events it is given; then the listening socket is closed, the resolver base is
  freed, the remaining connections are freed and \<^verbatim>\<open>main\<close> returns \<^verbatim>\<open>EXIT_SUCCESS\<close>.\<close>

definition main_dispatch :: "platform \<Rightarrow> world \<Rightarrow> event list \<Rightarrow> (error + int) option" where
  "main_dispatch P w evs =
     (case run P w evs of
        None \<Rightarrow> None
      | Some (Inl e) \<Rightarrow> Some (Inl e)
      | Some (Inr w) \<Rightarrow>
          (let w = evdns_base_free (close_ssl_sock w) in
           case main_cleanup (connections w) w of
             None \<Rightarrow> None
           | Some (Inl e) \<Rightarrow> Some (Inl e)
           | Some (Inr w) \<Rightarrow> Some (Inr EXIT_SUCCESS)))"

text \<open>\<^verbatim>\<open>main\<close>: the exit status of the process, for the events the loop delivers.\<close>

definition main :: "platform \<Rightarrow> startup \<Rightarrow> event list \<Rightarrow> (error + int) option" where
  "main P env evs =
     (case main_startup P env of
        Inl status \<Rightarrow> Some (Inr status)
      | Inr w \<Rightarrow> main_dispatch P w evs)"

section \<open>Views of the state used in the proofs\<close>

text \<open>
  The heap seen as two maps: the links of every connection object (\<^verbatim>\<open>prev\<close>,
  \<^verbatim>\<open>next\<close>), and the rest of the object with the links blanked. \<open>dlist l pr cur xs\<close>
  says that following \<^verbatim>\<open>next\<close> from \<open>cur\<close> visits exactly the addresses \<open>xs\<close> and ends
  in \<^verbatim>\<open>NULL\<close>, each object pointing back to the one before it (\<open>pr\<close> for the first).
  \<open>registry w xs\<close>: the global list \<^verbatim>\<open>connections\<close> is such a list without repetition,
  and it holds exactly the allocated objects.
\<close>

definition links_of :: "(nat \<rightharpoonup> conn) \<Rightarrow> nat \<rightharpoonup> (nat option \<times> nat option)" where
  "links_of h = (\<lambda>c. map_option (\<lambda>x. (c_prev x, c_next x)) (h c))"

abbreviation links :: "world \<Rightarrow> nat \<rightharpoonup> (nat option \<times> nat option)" where
  "links w \<equiv> links_of (heap w)"

definition payload :: "conn \<Rightarrow> conn" where
  "payload x = x\<lparr>c_next := None, c_prev := None\<rparr>"

definition payloads :: "(nat \<rightharpoonup> conn) \<Rightarrow> nat \<rightharpoonup> conn" where
  "payloads h = (\<lambda>c. map_option payload (h c))"

abbreviation conns :: "world \<Rightarrow> nat \<rightharpoonup> conn" where
  "conns w \<equiv> payloads (heap w)"

fun dlist ::
  "(nat \<rightharpoonup> (nat option \<times> nat option)) \<Rightarrow> nat option \<Rightarrow> nat option \<Rightarrow> nat list \<Rightarrow> bool" where
  "dlist l pr cur [] = (cur = None)"
| "dlist l pr cur (a # as) =
     (cur = Some a \<and>
      (case l a of None \<Rightarrow> False | Some (p, n) \<Rightarrow> p = pr \<and> dlist l (Some a) n as))"

definition registry :: "world \<Rightarrow> nat list \<Rightarrow> bool" where
  "registry w xs =
     (dlist (links w) None (connections w) xs \<and> distinct xs \<and> set xs = dom (heap w))"

text \<open>What freeing a connection does to the tables of the libraries, and the links of
  a list \<open>ys @ c # zs\<close> after \<open>c\<close> was taken out.\<close>

definition free_slot :: "nat option \<Rightarrow> (nat \<rightharpoonup> bufferevent) \<Rightarrow> (nat \<rightharpoonup> bufferevent)" where
  "free_slot s B =
     (case s of
        None \<Rightarrow> B
      | Some b \<Rightarrow> (case B b of None \<Rightarrow> B | Some be \<Rightarrow> B(b \<mapsto> be\<lparr>be_freed := True\<rparr>)))"

definition cancel_slot :: "nat option \<Rightarrow> (nat \<rightharpoonup> dns_request) \<Rightarrow> (nat \<rightharpoonup> dns_request)" where
  "cancel_slot s D =
     (case s of
        None \<Rightarrow> D
      | Some r \<Rightarrow>
          (case D r of
             None \<Rightarrow> D
           | Some rq \<Rightarrow>
               if rq_status rq = Req_pending then D(r \<mapsto> rq\<lparr>rq_status := Req_cancelled\<rparr>) else D))"

definition live_bev :: "world \<Rightarrow> nat \<Rightarrow> bool" where
  "live_bev w b = (case bevs w b of None \<Rightarrow> False | Some be \<Rightarrow> \<not> be_freed be)"

definition slots_ok :: "world \<Rightarrow> conn \<Rightarrow> bool" where
  "slots_ok w x =
     ((case local_bev x of None \<Rightarrow> True | Some b \<Rightarrow> live_bev w b \<and> remote_bev x \<noteq> Some b)
      \<and> (case remote_bev x of None \<Rightarrow> True | Some b \<Rightarrow> live_bev w b)
      \<and> (case resolver_req x of None \<Rightarrow> True | Some r \<Rightarrow> dns w r \<noteq> None))"

definition hd_opt :: "nat list \<Rightarrow> nat option" where
  "hd_opt zs = (case zs of [] \<Rightarrow> None | z # _ \<Rightarrow> Some z)"

definition last_opt :: "nat option \<Rightarrow> nat list \<Rightarrow> nat option" where
  "last_opt pr ys = (if ys = [] then pr else Some (last ys))"

definition relink ::
  "(nat \<rightharpoonup> (nat option \<times> nat option)) \<Rightarrow> nat option \<Rightarrow> nat list \<Rightarrow> nat \<Rightarrow> nat list
   \<Rightarrow> (nat \<rightharpoonup> (nat option \<times> nat option))" where
  "relink l pr ys c zs =
     (\<lambda>a. if a = c then None
          else if ys \<noteq> [] \<and> a = last ys then map_option (\<lambda>(p, n). (p, hd_opt zs)) (l a)
          else if zs \<noteq> [] \<and> a = hd zs then map_option (\<lambda>(p, n). (last_opt pr ys, n)) (l a)
          else l a)"




definition output_of :: "world \<Rightarrow> nat \<Rightarrow> string" where
  "output_of w b = (case bevs w b of None \<Rightarrow> [] | Some be \<Rightarrow> be_output be)"


text \<open>What \<^verbatim>\<open>new_ssl_conn_cb\<close> builds when it succeeds: the new object, linked in front
  of the list, and its TLS bufferevent.\<close>

definition accepted_conn :: "world \<Rightarrow> accept_result \<Rightarrow> conn" where
  "accepted_conn w acc =
     zero_conn\<lparr>c_next := connections w, state := C_SSL_CONNECTING,
               remote_addr := acc_addr acc, remote_addrlen := acc_addrlen acc,
               remote_bev := Some (bev_brk w)\<rparr>"

definition accepted_bev :: "nat \<Rightarrow> int \<Rightarrow> bufferevent" where
  "accepted_bev c fd =
     (new_bufferevent Openssl_socket fd True)
       \<lparr>be_eventcb := Some Ssl_event_cb, be_cbarg := Some c,
        be_timeout_read := Some 60, be_timeout_write := Some 60\<rparr>"

definition pushed_heap :: "world \<Rightarrow> conn \<Rightarrow> (nat \<rightharpoonup> conn)" where
  "pushed_heap w y =
     (case connections w of
        None \<Rightarrow> (heap w)(brk w \<mapsto> y)
      | Some h \<Rightarrow>
          (case heap w h of
             None \<Rightarrow> (heap w)(brk w \<mapsto> y)
           | Some xh \<Rightarrow> (heap w)(h \<mapsto> xh\<lparr>c_prev := Some (brk w)\<rparr>, brk w \<mapsto> y)))"


fun backlog :: "nat \<Rightarrow> nat \<Rightarrow> nat list \<Rightarrow> nat" where
  "backlog n p [] = p"
| "backlog n p (k # ks) = backlog n (p + k - n) ks"

definition delivered :: "nat \<Rightarrow> string \<Rightarrow> string list \<Rightarrow> nat" where
  "delivered n pending chunks =
     length (pending @ concat chunks) - backlog n (length pending) (map length chunks)"

text \<open>
  What \<^verbatim>\<open>close_connections\<close> does to a list \<open>xs\<close> of connections, in closed form: every
  connection of the list gets the state \<^verbatim>\<open>C_SHUTTINGDOWN\<close>, and the bufferevents in
  their remote slots (and in their local slots when \<open>flush_local\<close> holds) are disabled
  for reading and flushed.
\<close>

definition quiesce :: "bufferevent \<Rightarrow> bufferevent" where
  "quiesce be = be\<lparr>be_read_enabled := False, be_flushed := True\<rparr>"

definition qmap :: "nat set \<Rightarrow> (nat \<rightharpoonup> bufferevent) \<Rightarrow> (nat \<rightharpoonup> bufferevent)" where
  "qmap T B = (\<lambda>b. if b \<in> T then map_option quiesce (B b) else B b)"

definition close_targets :: "bool \<Rightarrow> conn \<Rightarrow> nat set" where
  "close_targets flush_local x =
     set_option (remote_bev x) \<union> (if flush_local then set_option (local_bev x) else {})"

definition all_targets :: "bool \<Rightarrow> world \<Rightarrow> nat list \<Rightarrow> nat set" where
  "all_targets flush_local w xs =
     (\<Union>c\<in>set xs. case heap w c of None \<Rightarrow> {} | Some x \<Rightarrow> close_targets flush_local x)"

definition closed_world :: "bool \<Rightarrow> nat list \<Rightarrow> world \<Rightarrow> world" where
  "closed_world flush_local xs w =
     w\<lparr>heap := (\<lambda>c. if c \<in> set xs then map_option (\<lambda>x. x\<lparr>state := C_SHUTTINGDOWN\<rparr>) (heap w c)
                    else heap w c),
       state_log := (\<lambda>c. if c \<in> set xs then state_log w c @ [C_SHUTTINGDOWN] else state_log w c),
       bevs := qmap (all_targets flush_local w xs) (bevs w)\<rparr>"

text \<open>\<open>slots_owned w c x\<close>: the bufferevents in the two slots of the connection \<open>x\<close> at
  address \<open>c\<close> are live and distinct, its resolver request exists, and the bufferevents
  in its slots call back with \<open>c\<close> as argument, as \<^verbatim>\<open>new_ssl_conn_cb\<close> and
  \<^verbatim>\<open>address_resolved\<close> register them.\<close>

definition slots_owned :: "world \<Rightarrow> nat \<Rightarrow> conn \<Rightarrow> bool" where
  "slots_owned w c x =
     (slots_ok w x
      \<and> (\<forall>b be. b \<in> set_option (local_bev x) \<union> set_option (remote_bev x) \<longrightarrow>
             bevs w b = Some be \<longrightarrow> be_cbarg be = Some c))"

section \<open>A concrete platform and concrete inputs\<close>

text \<open>Used to evaluate the model on explicit inputs: a platform without \<^verbatim>\<open>prctl\<close> and
  \<^verbatim>\<open>kqueue\<close> (so the parent is polled), where \<^verbatim>\<open>ip_convert\<close> gives the text stored
  with the address, and three behaviours of \<^verbatim>\<open>send_with_creds\<close>.\<close>

definition demo_platform :: "(int \<Rightarrow> string \<Rightarrow> int \<Rightarrow> int) \<Rightarrow> platform" where
  "demo_platform send =
     \<lparr>BUFFER_LEN = 4, AF_INET = 2, AF_INET6 = 10, SIGTERM = 15, SIGUSR1 = 10,
      HAVE_PRCTL = False, HAVE_KQUEUE = False,
      ip_convert = (\<lambda>a n. sa_data a), send_with_creds = send\<rparr>"

definition send_all :: "int \<Rightarrow> string \<Rightarrow> int \<Rightarrow> int" where
  "send_all fd buf len = len"

definition send_fails :: "int \<Rightarrow> string \<Rightarrow> int \<Rightarrow> int" where
  "send_fails fd buf len = - 1"

definition demo_startup :: "int \<Rightarrow> startup" where
  "demo_startup len =
     \<lparr>read_len = len,
      cf = \<lparr>private_key_file = [], certificate_file = [], ca_file = [], ca_dir = [],
            require_client_cert = False, ssl_port = 4202, ssl_ip_addr = [],
            cf_socket_file = ''netmush.sock'', cf_keepalive_timeout = 300\<rparr>,
      getppid = 7, ssl_init = True, prctl = - 1, kqueue = - 1, kevent = - 1\<rparr>"

definition demo_accept :: "int \<Rightarrow> accept_result" where
  "demo_accept fam =
     \<lparr>acc_fd = 5, acc_addr = \<lparr>sa_family = fam, sa_data = ''203.0.113.7''\<rparr>, acc_addrlen = 16\<rparr>"

text \<open>The state in which the loop starts on the concrete platform.\<close>

definition demo_world :: world where
  "demo_world =
     (case main_startup (demo_platform send_all) (demo_startup 200) of
        Inr w \<Rightarrow> w
      | Inl status \<Rightarrow> undefined)"

text \<open>A state with two accepted connections: 1 is the head of the list, 0 follows.\<close>

definition demo_two :: world where
  "demo_two =
     demo_world
       \<lparr>heap := [0 \<mapsto> (accepted_conn demo_world (demo_accept 2))\<lparr>c_prev := Some 1\<rparr>,
                 1 \<mapsto> (accepted_conn demo_world (demo_accept 2))
                        \<lparr>c_next := Some 0, remote_bev := Some 1\<rparr>],
        brk := 2, connections := Some 1,
        bevs := [0 \<mapsto> accepted_bev 0 5, 1 \<mapsto> accepted_bev 1 5], bev_brk := 2,
        state_log := (\<lambda>c. if c < 2 then [C_SSL_CONNECTING] else [])\<rparr>"

text \<open>The state reached from a run of the loop, when there is one.\<close>

definition world_after :: "(error + world) option \<Rightarrow> world" where
  "world_after r = (case r of Some (Inr w) \<Rightarrow> w | _ \<Rightarrow> demo_world)"

text \<open>A connection from an IPv4 peer is accepted, its handshake completes, the reverse
  lookup answers, and the local connect completes: connection 0 relays between its
  remote bufferevent 0 and its local bufferevent 1.\<close>

definition demo_established_events :: "event list" where
  "demo_established_events =
     [Listener_ready (demo_accept 2) True,
      Bev_event 0 {BEV_EVENT_CONNECTED},
      Dns_done 0 DNS_ERR_NONE DNS_PTR 1 (Some [''client.example.org'']),
      Bev_event 1 {BEV_EVENT_CONNECTED}]"

definition demo_established :: world where
  "demo_established = world_after (run (demo_platform send_all) demo_world demo_established_events)"

text \<open>The same connection after its handshake only: no local bufferevent yet.\<close>

definition demo_handshaken :: world where
  "demo_handshaken =
     world_after (run (demo_platform send_all) demo_world
       [Listener_ready (demo_accept 2) True, Bev_event 0 {BEV_EVENT_CONNECTED}])"

lemma then_do_simps [simp]:
  "then_do (Inl e) f = Inl e" "then_do (Inr x) f = f x"
  by (simp_all add: then_do_def)

lemma and_then_simps [simp]:
  "and_then (Inl e) g = Some (Inl e)" "and_then (Inr x) g = g x"
  by (simp_all add: and_then_def)

lemma nonnull_simps [simp]: "nonnull None = Inl Null_pointer" "nonnull (Some x) = Inr x"
  by (simp_all add: nonnull_def)

lemma conn_at_Some: "heap w c = Some x \<Longrightarrow> conn_at c w = Inr x"
  by (simp add: conn_at_def)

lemma conn_at_None: "heap w c = None \<Longrightarrow> conn_at c w = Inl (Use_after_free c)"
  by (simp add: conn_at_def)

lemma upd_conn_Some:
  "heap w c = Some x \<Longrightarrow> upd_conn c f w = Inr (w\<lparr>heap := (heap w)(c \<mapsto> f x)\<rparr>)"
  by (simp add: upd_conn_def)

lemma upd_conn_None: "heap w c = None \<Longrightarrow> upd_conn c f w = Inl (Use_after_free c)"
  by (simp add: upd_conn_def)

lemma set_state_Some:
  "heap w c = Some x \<Longrightarrow>
   set_state c s w =
     Inr (w\<lparr>heap := (heap w)(c \<mapsto> x\<lparr>state := s\<rparr>),
            state_log := (state_log w)(c := state_log w c @ [s])\<rparr>)"
  by (simp add: set_state_def upd_conn_Some)

lemma bev_at_live: "bevs w b = Some be \<Longrightarrow> \<not> be_freed be \<Longrightarrow> bev_at b w = Inr be"
  by (simp add: bev_at_def)

lemma upd_bev_live:
  "bevs w b = Some be \<Longrightarrow> \<not> be_freed be \<Longrightarrow>
   upd_bev b f w = Inr (w\<lparr>bevs := (bevs w)(b \<mapsto> f be)\<rparr>)"
  by (simp add: upd_bev_def bev_at_live)

lemmas bev_ops =
  bufferevent_setcb_def bufferevent_enable_def bufferevent_disable_def
  bufferevent_set_timeouts_def bufferevent_flush_def bufferevent_free_def SSL_shutdown_def
  bufferevent_socket_connect_def socket_sent_def

subsection \<open>lists\<close>

lemma links_of_simps [simp]:
  "links_of (h(c \<mapsto> x)) = (links_of h)(c \<mapsto> (c_prev x, c_next x))"
  "links_of (h(c := None)) = (links_of h)(c := None)"
  "links_of h a = None \<longleftrightarrow> h a = None"
  by (auto simp: links_of_def)

lemma links_heap: "heap w a = Some x \<Longrightarrow> links w a = Some (c_prev x, c_next x)"
  by (simp add: links_of_def)

lemma payload_fields [simp]:
  "state (payload x) = state x" "remote_addrfam (payload x) = remote_addrfam x"
  "remote_addrlen (payload x) = remote_addrlen x" "remote_addr (payload x) = remote_addr x"
  "remote_host (payload x) = remote_host x" "remote_ip (payload x) = remote_ip x"
  "local_bev (payload x) = local_bev x" "remote_bev (payload x) = remote_bev x"
  "resolver_req (payload x) = resolver_req x"
  by (simp_all add: payload_def)

lemma payload_upd [simp]:
  "payload (x\<lparr>c_next := n\<rparr>) = payload x" "payload (x\<lparr>c_prev := p\<rparr>) = payload x"
  "payload (x\<lparr>state := s\<rparr>) = (payload x)\<lparr>state := s\<rparr>"
  "payload (x\<lparr>remote_addr := a\<rparr>) = (payload x)\<lparr>remote_addr := a\<rparr>"
  "payload (x\<lparr>remote_addrlen := al\<rparr>) = (payload x)\<lparr>remote_addrlen := al\<rparr>"
  "payload (x\<lparr>remote_host := ho\<rparr>) = (payload x)\<lparr>remote_host := ho\<rparr>"
  "payload (x\<lparr>remote_ip := i\<rparr>) = (payload x)\<lparr>remote_ip := i\<rparr>"
  "payload (x\<lparr>local_bev := lb\<rparr>) = (payload x)\<lparr>local_bev := lb\<rparr>"
  "payload (x\<lparr>remote_bev := rb\<rparr>) = (payload x)\<lparr>remote_bev := rb\<rparr>"
  "payload (x\<lparr>resolver_req := rr\<rparr>) = (payload x)\<lparr>resolver_req := rr\<rparr>"
  by (simp_all add: payload_def)

lemma payloads_simps [simp]:
  "payloads (h(c \<mapsto> x)) = (payloads h)(c \<mapsto> payload x)"
  "payloads (h(c := None)) = (payloads h)(c := None)"
  "payloads h a = None \<longleftrightarrow> h a = None"
  "dom (payloads h) = dom h"
  by (auto simp: payloads_def)

lemma payloads_Some: "payloads h c = Some px \<longleftrightarrow> (\<exists>x. h c = Some x \<and> payload x = px)"
  by (auto simp: payloads_def)

lemma payloads_heap: "heap w c = Some x \<Longrightarrow> conns w c = Some (payload x)"
  by (simp add: payloads_def)

lemma dlist_Cons_heap:
  "dlist (links w) pr cur (a # as) \<longleftrightarrow>
   cur = Some a \<and> (\<exists>x. heap w a = Some x \<and> c_prev x = pr \<and> dlist (links w) (Some a) (c_next x) as)"
  by (cases "heap w a") (auto simp: links_of_def)

lemma dlist_cong:
  "(\<And>a. a \<in> set xs \<Longrightarrow> l' a = l a) \<Longrightarrow> dlist l' pr cur xs = dlist l pr cur xs"
  by (induction xs arbitrary: pr cur) (auto split: option.splits)

lemma dlist_heap_dom: "dlist l pr cur xs \<Longrightarrow> a \<in> set xs \<Longrightarrow> l a \<noteq> None"
  by (induction xs arbitrary: pr cur) (auto split: option.splits)

text \<open>traversal of delete loop\<close>

lemma delete_loop_absent:
  "dlist (links w) pr cur xs \<Longrightarrow> c \<notin> set xs \<Longrightarrow> delete_conn_loop c cur w = Some (Inr w)"
proof (induction xs arbitrary: pr cur)
  case Nil
  then show ?case by (simp add: delete_conn_loop.simps)
next
  case (Cons a as)
  from Cons.prems(1) [unfolded dlist_Cons_heap]
  obtain x where x: "cur = Some a" "heap w a = Some x"
    and rest: "dlist (links w) (Some a) (c_next x) as"
    by blast
  from Cons.prems have "a \<noteq> c" "c \<notin> set as" by auto
  with Cons.IH [OF rest] x show ?case
    by (subst delete_conn_loop.simps) simp
qed

lemma delete_loop_found:
  "dlist (links w) pr cur (ys @ c # zs) \<Longrightarrow> c \<notin> set ys \<Longrightarrow> heap w c = Some x \<Longrightarrow>
   delete_conn_loop c cur w = Some (unlink_conn c x w)"
proof (induction ys arbitrary: pr cur)
  case Nil
  from Nil.prems(1) [unfolded append_Nil dlist_Cons_heap] Nil.prems(3)
  show ?case by (subst delete_conn_loop.simps) auto
next
  case (Cons a as)
  from Cons.prems(1) [unfolded append_Cons dlist_Cons_heap]
  obtain y where y: "cur = Some a" "heap w a = Some y"
    and rest: "dlist (links w) (Some a) (c_next y) (as @ c # zs)"
    by blast
  from Cons.prems have "a \<noteq> c" "c \<notin> set as" by auto
  with Cons.IH [OF rest _ Cons.prems(3)] y show ?case
    by (subst delete_conn_loop.simps) simp
qed


lemma hd_opt_simps [simp]: "hd_opt [] = None" "hd_opt (z # zs) = Some z"
  by (simp_all add: hd_opt_def)

lemma last_opt_simps [simp]:
  "last_opt pr [] = pr" "last_opt pr (a # as) = last_opt (Some a) as"
  by (simp_all add: last_opt_def)

lemma dlist_hd: "dlist l pr cur zs \<Longrightarrow> cur = hd_opt zs"
  by (cases zs) auto

lemma dlist_mid:
  "dlist l pr cur (ys @ c # zs) \<Longrightarrow>
   l c = Some (last_opt pr ys, hd_opt zs) \<and> dlist l (Some c) (hd_opt zs) zs"
proof (induction ys arbitrary: pr cur)
  case Nil
  then show ?case by (auto split: option.splits dest: dlist_hd)
next
  case (Cons a as)
  then show ?case by (auto split: option.splits)
qed

lemma dlist_relink:
  "dlist l pr cur (ys @ c # zs) \<Longrightarrow> distinct (ys @ c # zs) \<Longrightarrow>
   dlist (relink l pr ys c zs) pr (if ys = [] then hd_opt zs else cur) (ys @ zs)"
proof (induction ys arbitrary: pr cur)
  case Nil
  show ?case
  proof (cases zs)
    case Nil
    then show ?thesis by simp
  next
    case (Cons z zs')
    with Nil.prems obtain n where z: "l z = Some (Some c, n)" and rest: "dlist l (Some z) n zs'"
      by (auto split: option.splits)
    have "dlist (relink l pr [] c zs) (Some z) n zs' = dlist l (Some z) n zs'"
      using Nil.prems(2) Cons by (intro dlist_cong) (auto simp: relink_def)
    with z rest Cons Nil.prems(2) show ?thesis by (auto simp: relink_def)
  qed
next
  case (Cons a as)
  from Cons.prems(1) obtain n where a: "cur = Some a" "l a = Some (pr, n)"
    and rest: "dlist l (Some a) n (as @ c # zs)"
    by (auto split: option.splits)
  from Cons.prems(2) have d: "distinct (as @ c # zs)" and na: "a \<notin> set (as @ c # zs)" by auto
  have ih: "dlist (relink l (Some a) as c zs) (Some a) (if as = [] then hd_opt zs else n) (as @ zs)"
    by (rule Cons.IH [OF rest d])
  have agree: "dlist (relink l pr (a # as) c zs) (Some a) (if as = [] then hd_opt zs else n) (as @ zs)
        = dlist (relink l (Some a) as c zs) (Some a) (if as = [] then hd_opt zs else n) (as @ zs)"
    using na d by (intro dlist_cong) (auto simp: relink_def)
  have la: "relink l pr (a # as) c zs a = Some (pr, if as = [] then hd_opt zs else n)"
    using na a d by (cases zs) (auto simp: relink_def)
  from ih agree la a show ?case by simp
qed


lemma free_step_bev:
  "(case s of None \<Rightarrow> True | Some b \<Rightarrow> live_bev w b) \<Longrightarrow>
   (case s of Some b \<Rightarrow> bufferevent_free b w | None \<Rightarrow> Inr w) =
     Inr (w\<lparr>bevs := free_slot s (bevs w)\<rparr>)"
  by (cases s)
     (auto simp: live_bev_def free_slot_def bufferevent_free_def upd_bev_live split: option.splits)

lemma cancel_step:
  "(case s of None \<Rightarrow> True | Some r \<Rightarrow> dns w r \<noteq> None) \<Longrightarrow>
   (case s of Some r \<Rightarrow> evdns_cancel_request r w | None \<Rightarrow> Inr w) =
     Inr (w\<lparr>dns := cancel_slot s (dns w)\<rparr>)"
  by (cases s) (auto simp: cancel_slot_def evdns_cancel_request_def split: option.splits)

lemma live_bev_free_other:
  "live_bev w b \<Longrightarrow> s \<noteq> Some b \<Longrightarrow> live_bev (w\<lparr>bevs := free_slot s (bevs w)\<rparr>) b"
  by (cases s) (auto simp: live_bev_def free_slot_def split: option.splits)

lemma free_conn_eval:
  assumes x: "heap w c = Some x" and ok: "slots_ok w x"
  shows "free_conn c w =
     Inr (w\<lparr>heap := (heap w)(c := None),
            bevs := free_slot (remote_bev x) (free_slot (local_bev x) (bevs w)),
            dns := cancel_slot (resolver_req x) (dns w)\<rparr>)"
proof -
  have l: "case local_bev x of None \<Rightarrow> True | Some b \<Rightarrow> live_bev w b"
    using ok by (simp add: slots_ok_def split: option.splits)
  have r: "case remote_bev x of None \<Rightarrow> True
           | Some b \<Rightarrow> live_bev (w\<lparr>bevs := free_slot (local_bev x) (bevs w)\<rparr>) b"
    using ok by (auto simp: slots_ok_def intro!: live_bev_free_other split: option.splits)
  have q: "case resolver_req x of None \<Rightarrow> True
           | Some r \<Rightarrow> dns (w\<lparr>bevs := free_slot (remote_bev x) (free_slot (local_bev x) (bevs w))\<rparr>) r \<noteq> None"
    using ok by (simp add: slots_ok_def split: option.splits)
  show ?thesis
    unfolding free_conn_def
    by (simp add: conn_at_Some [OF x] free_step_bev [OF l] free_step_bev [OF r, simplified]
        cancel_step [OF q, simplified])
qed


lemma live_bev_frame [simp]:
  "live_bev (w\<lparr>heap := h\<rparr>) b = live_bev w b"
  "live_bev (w\<lparr>connections := cn\<rparr>) b = live_bev w b"
  "live_bev (w\<lparr>state_log := sl\<rparr>) b = live_bev w b"
  "live_bev (w\<lparr>dns := D\<rparr>) b = live_bev w b"
  by (simp_all add: live_bev_def)

lemma slots_ok_frame [simp]:
  "slots_ok (w\<lparr>heap := h\<rparr>) x = slots_ok w x"
  "slots_ok (w\<lparr>connections := cn\<rparr>) x = slots_ok w x"
  "slots_ok (w\<lparr>state_log := sl\<rparr>) x = slots_ok w x"
  by (simp_all add: slots_ok_def cong: option.case_cong)

lemma unlink_conn_eval:
  assumes dl: "dlist (links w) None (connections w) (ys @ c # zs)"
    and di: "distinct (ys @ c # zs)"
    and x: "heap w c = Some x" and ok: "slots_ok w x"
  shows "\<exists>h'. unlink_conn c x w =
            Inr (w\<lparr>heap := h', connections := (if ys = [] then hd_opt zs else connections w),
                   bevs := free_slot (remote_bev x) (free_slot (local_bev x) (bevs w)),
                   dns := cancel_slot (resolver_req x) (dns w)\<rparr>)
          \<and> links_of h' = relink (links w) None ys c zs
          \<and> payloads h' = (conns w)(c := None)
          \<and> dom h' = dom (heap w) - {c}"
proof -
  from dlist_mid [OF dl] x have px: "c_prev x = last_opt None ys" "c_next x = hd_opt zs"
    by (simp_all add: links_of_def)
  have ex: "\<And>a. a \<in> set (ys @ c # zs) \<Longrightarrow> \<exists>y. heap w a = Some y"
    using dlist_heap_dom [OF dl] by (auto simp del: set_append)
  show ?thesis
  proof (cases ys rule: rev_cases)
    case Nil
    note ysN = Nil
    show ?thesis
    proof (cases zs)
      case Nil
      let ?H = "(heap w)(c := None)"
      have "unlink_conn c x w =
            Inr (w\<lparr>heap := ?H, connections := None,
                   bevs := free_slot (remote_bev x) (free_slot (local_bev x) (bevs w)),
                   dns := cancel_slot (resolver_req x) (dns w)\<rparr>)"
        using x ok by (simp add: unlink_conn_def px ysN Nil free_conn_eval [where x = x])
      moreover have "links_of ?H = relink (links w) None ys c zs"
        by (rule ext) (simp add: relink_def ysN Nil)
      ultimately show ?thesis using ysN Nil by (intro exI [of _ ?H]) auto
    next
      case (Cons z zs')
      from ex [of z] Cons obtain xz where xz: "heap w z = Some xz" by auto
      from di Cons have zc: "z \<noteq> c" by auto
      let ?H = "(heap w)(z \<mapsto> xz\<lparr>c_prev := None\<rparr>, c := None)"
      have "unlink_conn c x w =
            Inr (w\<lparr>heap := ?H, connections := Some z,
                   bevs := free_slot (remote_bev x) (free_slot (local_bev x) (bevs w)),
                   dns := cancel_slot (resolver_req x) (dns w)\<rparr>)"
        using x ok xz zc
        by (simp add: unlink_conn_def px ysN Cons upd_conn_Some free_conn_eval [where x = x])
      moreover have "links_of ?H = relink (links w) None ys c zs"
        using xz zc by (intro ext) (simp add: relink_def ysN Cons links_of_def)
      moreover have "payloads ?H = (conns w)(c := None)"
        using xz zc by (intro ext) (simp add: payloads_def)
      moreover have "dom ?H = dom (heap w) - {c}" using xz zc by auto
      ultimately show ?thesis using ysN Cons by (intro exI [of _ ?H]) simp
    qed
  next
    case (snoc ys' p)
    note ysS = snoc
    from ex [of p] snoc obtain xp where xp: "heap w p = Some xp" by auto
    from di snoc have pc: "p \<noteq> c" by auto
    show ?thesis
    proof (cases zs)
      case Nil
      let ?H = "(heap w)(p \<mapsto> xp\<lparr>c_next := None\<rparr>, c := None)"
      have "unlink_conn c x w =
            Inr (w\<lparr>heap := ?H, connections := connections w,
                   bevs := free_slot (remote_bev x) (free_slot (local_bev x) (bevs w)),
                   dns := cancel_slot (resolver_req x) (dns w)\<rparr>)"
        using x ok xp pc
        by (simp add: unlink_conn_def px ysS Nil last_opt_def upd_conn_Some
            free_conn_eval [where x = x])
      moreover have "links_of ?H = relink (links w) None ys c zs"
        using xp pc by (intro ext) (simp add: relink_def ysS Nil links_of_def)
      moreover have "payloads ?H = (conns w)(c := None)"
        using xp pc by (intro ext) (simp add: payloads_def)
      moreover have "dom ?H = dom (heap w) - {c}" using xp pc by auto
      ultimately show ?thesis using ysS Nil by (intro exI [of _ ?H]) simp
    next
      case (Cons z zs')
      from ex [of z] Cons obtain xz where xz: "heap w z = Some xz" by auto
      from di Cons snoc have zc: "z \<noteq> c" and zp: "z \<noteq> p" by auto
      let ?H = "(heap w)(p \<mapsto> xp\<lparr>c_next := Some z\<rparr>, z \<mapsto> xz\<lparr>c_prev := Some p\<rparr>, c := None)"
      have "unlink_conn c x w =
            Inr (w\<lparr>heap := ?H, connections := connections w,
                   bevs := free_slot (remote_bev x) (free_slot (local_bev x) (bevs w)),
                   dns := cancel_slot (resolver_req x) (dns w)\<rparr>)"
        using x ok xp pc xz zc zp
        by (simp add: unlink_conn_def px ysS Cons last_opt_def upd_conn_Some
            free_conn_eval [where x = x])
      moreover have "links_of ?H = relink (links w) None ys c zs"
        using xp pc xz zc zp by (intro ext) (simp add: relink_def ysS Cons links_of_def last_opt_def)
      moreover have "payloads ?H = (conns w)(c := None)"
        using xp pc xz zc zp by (intro ext) (simp add: payloads_def)
      moreover have "dom ?H = dom (heap w) - {c}" using xp pc xz zc zp by auto
      ultimately show ?thesis using ysS Cons by (intro exI [of _ ?H]) simp
    qed
  qed
qed


lemma registry_frame [simp]:
  "registry (w\<lparr>bevs := B\<rparr>) xs = registry w xs"
  "registry (w\<lparr>dns := D\<rparr>) xs = registry w xs"
  "registry (w\<lparr>state_log := sl\<rparr>) xs = registry w xs"
  "registry (w\<lparr>brk := k\<rparr>) xs = registry w xs"
  "registry (w\<lparr>bev_brk := k\<rparr>) xs = registry w xs"
  "registry (w\<lparr>req_brk := k\<rparr>) xs = registry w xs"
  "registry (w\<lparr>main_loop := ml\<rparr>) xs = registry w xs"
  by (simp_all add: registry_def)

lemma delete_conn_absent:
  "dlist (links w) pr (connections w) xs \<Longrightarrow> c \<notin> set xs \<Longrightarrow> delete_conn c w = Some (Inr w)"
  unfolding delete_conn_def by (rule delete_loop_absent)

lemma delete_conn_eval:
  assumes reg: "registry w xs" and x: "heap w c = Some x" and ok: "slots_ok w x"
  shows "\<exists>h' cn'. delete_conn c w =
            Some (Inr (w\<lparr>heap := h', connections := cn',
                   bevs := free_slot (remote_bev x) (free_slot (local_bev x) (bevs w)),
                   dns := cancel_slot (resolver_req x) (dns w)\<rparr>))
          \<and> registry (w\<lparr>heap := h', connections := cn'\<rparr>) (remove1 c xs)
          \<and> payloads h' = (conns w)(c := None)"
proof -
  from reg x have "c \<in> set xs" by (auto simp: registry_def)
  then obtain ys zs where xs: "xs = ys @ c # zs" and cy: "c \<notin> set ys"
    by (auto dest: split_list_first)
  from reg xs have dl: "dlist (links w) None (connections w) (ys @ c # zs)"
    and di: "distinct (ys @ c # zs)" and dm: "set (ys @ c # zs) = dom (heap w)"
    by (simp_all add: registry_def)
  from unlink_conn_eval [OF dl di x ok] obtain h' where
    u: "unlink_conn c x w =
            Inr (w\<lparr>heap := h', connections := (if ys = [] then hd_opt zs else connections w),
                   bevs := free_slot (remote_bev x) (free_slot (local_bev x) (bevs w)),
                   dns := cancel_slot (resolver_req x) (dns w)\<rparr>)"
    and l: "links_of h' = relink (links w) None ys c zs"
    and p: "payloads h' = (conns w)(c := None)"
    and d: "dom h' = dom (heap w) - {c}"
    by blast
  have del: "delete_conn c w = Some (unlink_conn c x w)"
    unfolding delete_conn_def by (rule delete_loop_found [OF dl cy x])
  have r1: "remove1 c xs = ys @ zs" using xs cy by (simp add: remove1_append)
  have "dlist (links_of h') None (if ys = [] then hd_opt zs else connections w) (ys @ zs)"
    unfolding l by (rule dlist_relink [OF dl di])
  moreover have "set (ys @ zs) = dom h'" using d dm di by auto
  ultimately have "registry (w\<lparr>heap := h', connections := (if ys = [] then hd_opt zs else connections w)\<rparr>)
      (remove1 c xs)"
    using di by (simp add: registry_def r1)
  with del u p show ?thesis
    by (intro exI [of _ h'] exI [of _ "if ys = [] then hd_opt zs else connections w"]) simp
qed

lemma address_resolved_eval:
  assumes x: "heap w c = Some x" and nc: "result \<noteq> DNS_ERR_CANCEL"
    and ok: "\<not> lookup_failed result rtype count addresses \<Longrightarrow> addresses = Some (hostname # others)"
  shows "address_resolved P result rtype count addresses c w =
     Inr (w\<lparr>heap := (heap w)(c \<mapsto>
               x\<lparr>resolver_req := None,
                 remote_host := Some (if lookup_failed result rtype count addresses
                                      then ip_convert P (remote_addr x) (remote_addrlen x)
                                      else hostname),
                 remote_ip := Some (ip_convert P (remote_addr x) (remote_addrlen x)),
                 state := C_LOCAL_CONNECTING,
                 local_bev := Some (bev_brk w)\<rparr>),
            state_log := (state_log w)(c := state_log w c @ [C_LOCAL_CONNECTING]),
            bevs := (bevs w)(bev_brk w \<mapsto>
               (new_bufferevent Plain_socket (int (bev_brk w)) True)
                 \<lparr>be_eventcb := Some Ssl_event_cb, be_cbarg := Some c\<rparr>),
            bev_brk := Suc (bev_brk w)\<rparr>)"
proof (cases "lookup_failed result rtype count addresses")
  case True
  with x nc show ?thesis
    by (simp add: address_resolved_def upd_conn_Some conn_at_Some set_state_Some
        bufferevent_socket_new_def upd_bev_live bev_ops new_bufferevent_def Let_def)
next
  case False
  with ok have a: "addresses = Some (hostname # others)" by simp
  from x nc False show ?thesis
    by (simp add: a address_resolved_def upd_conn_Some conn_at_Some set_state_Some
        bufferevent_socket_new_def upd_bev_live bev_ops new_bufferevent_def Let_def)
qed







lemma upd_same_bev: "bevs w b = Some be \<Longrightarrow> w\<lparr>bevs := (bevs w)(b \<mapsto> be)\<rparr> = w"
  by (simp add: fun_upd_idem)



section \<open>Startup and exit status\<close>

text \<open>
  C1 (the code differs from the claim). \<^verbatim>\<open>main\<close> tests the return value of \<^verbatim>\<open>read\<close>
  only for being negative. A read that returns no byte at all, with \<^verbatim>\<open>ssl_init\<close>
  succeeding, is therefore not fatal: the process does not exit with
  \<^verbatim>\<open>EXIT_FAILURE\<close> before the loop, it starts the loop, and when the loop returns at once
  it exits with \<^verbatim>\<open>EXIT_SUCCESS\<close>.
\<close>

theorem C1_short_read_not_fatal:
  "main_startup P (env\<lparr>read_len := 0, ssl_init := True\<rparr>) \<noteq> Inl EXIT_FAILURE
   \<and> main P (env\<lparr>read_len := 0, ssl_init := True\<rparr>) [] = Some (Inr EXIT_SUCCESS)"
  by (simp add: main_def main_dispatch_def main_startup_def main_cleanup.simps
      evdns_base_free_def close_ssl_sock_def)


section \<open>Completion of the reverse lookup\<close>

text \<open>
  C7. For a live connection and a completion that is not a cancellation,
  \<^verbatim>\<open>address_resolved\<close> returns exactly the state in which \<^verbatim>\<open>resolver_req\<close> is cleared,
  \<^verbatim>\<open>remote_host\<close> and \<^verbatim>\<open>remote_ip\<close> are each assigned once, the state is
  \<^verbatim>\<open>C_LOCAL_CONNECTING\<close>, and a new plain bufferevent, connecting to the local socket and
  calling \<^verbatim>\<open>ssl_event_cb\<close> with the connection, is in \<^verbatim>\<open>local_bev\<close>. On success the
  host is the first resolved name and the ip the numeric address; on any failure (an error
  code, no address list, a wrong record type, a count of zero) both are the numeric
  address. The third hypothesis is the resolver's contract that a successful answer
  carries at least one name.
\<close>

theorem C7_address_resolved_names:
  assumes "heap w c = Some x" and "result \<noteq> DNS_ERR_CANCEL"
    and "\<not> lookup_failed result rtype count addresses \<Longrightarrow> addresses = Some (hostname # others)"
  shows "address_resolved P result rtype count addresses c w =
     Inr (w\<lparr>heap := (heap w)(c \<mapsto>
               x\<lparr>resolver_req := None,
                 remote_host := Some (if lookup_failed result rtype count addresses
                                      then ip_convert P (remote_addr x) (remote_addrlen x)
                                      else hostname),
                 remote_ip := Some (ip_convert P (remote_addr x) (remote_addrlen x)),
                 state := C_LOCAL_CONNECTING,
                 local_bev := Some (bev_brk w)\<rparr>),
            state_log := (state_log w)(c := state_log w c @ [C_LOCAL_CONNECTING]),
            bevs := (bevs w)(bev_brk w \<mapsto>
               (new_bufferevent Plain_socket (int (bev_brk w)) True)
                 \<lparr>be_eventcb := Some Ssl_event_cb, be_cbarg := Some c\<rparr>),
            bev_brk := Suc (bev_brk w)\<rparr>)"
  using assms by (rule address_resolved_eval)

text \<open>Witness for C7: a successful and a failed lookup for connection 0 of the concrete
  run after its handshake.\<close>

theorem C7_address_resolved_names_witness:
  "(\<exists>x. heap demo_handshaken 0 = Some x) \<and> DNS_ERR_NONE \<noteq> DNS_ERR_CANCEL
   \<and> \<not> lookup_failed DNS_ERR_NONE DNS_PTR 1 (Some [''client.example.org''])
   \<and> (case address_resolved (demo_platform send_all) DNS_ERR_NONE DNS_PTR 1
              (Some [''client.example.org'']) 0 demo_handshaken of
         Inl e \<Rightarrow> False
       | Inr w' \<Rightarrow>
           map_option remote_host (heap w' 0) = Some (Some ''client.example.org'')
           \<and> map_option remote_ip (heap w' 0) = Some (Some ''203.0.113.7'')
           \<and> map_option state (heap w' 0) = Some C_LOCAL_CONNECTING)
   \<and> lookup_failed 66 DNS_PTR 0 None \<and> 66 \<noteq> DNS_ERR_CANCEL
   \<and> (case address_resolved (demo_platform send_all) 66 DNS_PTR 0 None 0 demo_handshaken of
         Inl e \<Rightarrow> False
       | Inr w' \<Rightarrow>
           map_option remote_host (heap w' 0) = Some (Some ''203.0.113.7'')
           \<and> map_option remote_ip (heap w' 0) = Some (Some ''203.0.113.7'')
           \<and> map_option state (heap w' 0) = Some C_LOCAL_CONNECTING)"
proof -
  define x where "x = \<lparr>state = C_HOSTNAME_LOOKUP, remote_addrfam = 0, remote_addrlen = 16,
           remote_addr = \<lparr>sa_family = 2, sa_data = ''203.0.113.7''\<rparr>,
           remote_host = None, remote_ip = None, local_bev = None, remote_bev = Some 0,
           resolver_req = Some 0, c_next = None, c_prev = None\<rparr>"
  have h: "heap demo_handshaken 0 = Some x" unfolding x_def by code_simp
  have n: "DNS_ERR_NONE \<noteq> DNS_ERR_CANCEL" "66 \<noteq> DNS_ERR_CANCEL"
    by (simp_all add: DNS_ERR_NONE_def DNS_ERR_CANCEL_def)
  have l: "\<not> lookup_failed DNS_ERR_NONE DNS_PTR 1 (Some [''client.example.org''])"
    "lookup_failed 66 DNS_PTR 0 None"
    by (simp_all add: lookup_failed_def)
  have i: "ip_convert (demo_platform send_all) (remote_addr x) (remote_addrlen x) = ''203.0.113.7''"
    by (simp add: demo_platform_def x_def)
  from C7_address_resolved_names [OF h n(1), of DNS_PTR 1 "Some [''client.example.org'']"
      "''client.example.org''" "[]" "demo_platform send_all"] l(1)
  have a: "case address_resolved (demo_platform send_all) DNS_ERR_NONE DNS_PTR 1
              (Some [''client.example.org'']) 0 demo_handshaken of
         Inl e \<Rightarrow> False
       | Inr w' \<Rightarrow>
           map_option remote_host (heap w' 0) = Some (Some ''client.example.org'')
           \<and> map_option remote_ip (heap w' 0) = Some (Some ''203.0.113.7'')
           \<and> map_option state (heap w' 0) = Some C_LOCAL_CONNECTING"
    by (simp add: i)
  from C7_address_resolved_names [OF h n(2), of DNS_PTR 0 None "[]" "[]" "demo_platform send_all"] l(2)
  have b: "case address_resolved (demo_platform send_all) 66 DNS_PTR 0 None 0 demo_handshaken of
         Inl e \<Rightarrow> False
       | Inr w' \<Rightarrow>
           map_option remote_host (heap w' 0) = Some (Some ''203.0.113.7'')
           \<and> map_option remote_ip (heap w' 0) = Some (Some ''203.0.113.7'')
           \<and> map_option state (heap w' 0) = Some C_LOCAL_CONNECTING"
    by (simp add: i)
  from h n l a b show ?thesis by blast
qed

section \<open>Cancelling a lookup\<close>

text \<open>
  C6 (the code differs from the claim). A connection is accepted, its handshake completes
  and the lookup starts; the remote side closes, so \<^verbatim>\<open>ssl_event_cb\<close> deletes the
  connection and \<^verbatim>\<open>free_conn\<close> cancels the request and frees the object. The resolver
  then completes the cancelled request with \<^verbatim>\<open>DNS_ERR_CANCEL\<close>, and
  \<^verbatim>\<open>address_resolved\<close> assigns \<^verbatim>\<open>c->resolver_req = NULL\<close> before it tests the result:
  a write to the freed connection.
\<close>

theorem C6_cancel_callback_after_free:
  "run (demo_platform send_all) demo_world
     [Listener_ready (demo_accept 2) True,
      Bev_event 0 {BEV_EVENT_CONNECTED},
      Bev_event 0 {BEV_EVENT_EOF},
      Dns_done 0 DNS_ERR_NONE DNS_PTR 1 (Some [''client.example.org''])]
   = Some (Inl (Use_after_free 0))"
proof -
  define r where "r = run (demo_platform send_all) demo_world
     [Listener_ready (demo_accept 2) True,
      Bev_event 0 {BEV_EVENT_CONNECTED},
      Bev_event 0 {BEV_EVENT_EOF},
      Dns_done 0 DNS_ERR_NONE DNS_PTR 1 (Some [''client.example.org''])]"
  have "case r of Some (Inl e) \<Rightarrow> e = Use_after_free 0 | _ \<Rightarrow> False"
    unfolding r_def by code_simp
  then have "r = Some (Inl (Use_after_free 0))"
    by (cases r) (auto split: sum.splits)
  then show ?thesis unfolding r_def .
qed

lemma registry_eq:
  "heap w' = heap w \<Longrightarrow> connections w' = connections w \<Longrightarrow> registry w' xs = registry w xs"
  by (simp add: registry_def)

lemma registry_head:
  assumes "registry w xs"
  shows "connections w = hd_opt xs"
    and "\<And>h. connections w = Some h \<Longrightarrow> \<exists>xh. heap w h = Some xh \<and> c_prev xh = None"
proof -
  from assms have d: "dlist (links w) None (connections w) xs" by (simp add: registry_def)
  from dlist_hd [OF d] show "connections w = hd_opt xs" .
  fix h assume h: "connections w = Some h"
  show "\<exists>xh. heap w h = Some xh \<and> c_prev xh = None"
  proof (cases xs)
    case Nil
    with d h show ?thesis by simp
  next
    case (Cons a as)
    with d h show ?thesis by (auto simp: dlist_Cons_heap simp del: dlist.simps)
  qed
qed

lemma registry_push:
  assumes reg: "registry w xs" and fresh: "c \<notin> set xs"
    and h': "h' = (case connections w of
                     None \<Rightarrow> (heap w)(c \<mapsto> y)
                   | Some h \<Rightarrow> (heap w)(h \<mapsto> (the (heap w h))\<lparr>c_prev := Some c\<rparr>, c \<mapsto> y))"
    and y: "c_prev y = None" "c_next y = connections w"
  shows "registry (w\<lparr>heap := h', connections := Some c\<rparr>) (c # xs)"
proof (cases xs)
  case Nil
  with reg have "connections w = None" "dom (heap w) = {}" by (auto simp: registry_def)
  with Nil h' y show ?thesis by (simp add: registry_def links_of_def)
next
  case (Cons a as)
  from reg Cons obtain xa where a: "connections w = Some a" "heap w a = Some xa" "c_prev xa = None"
    and rest: "dlist (links w) (Some a) (c_next xa) as"
    and di: "distinct (a # as)" and dm: "set (a # as) = dom (heap w)"
    by (auto simp: registry_def dlist_Cons_heap simp del: dlist.simps)
  from fresh Cons have ca: "c \<noteq> a" "c \<notin> set as" by auto
  have H: "h' = (heap w)(a \<mapsto> xa\<lparr>c_prev := Some c\<rparr>, c \<mapsto> y)" using h' a by simp
  have "dlist (links_of h') (Some a) (c_next xa) as = dlist (links w) (Some a) (c_next xa) as"
    using ca di by (intro dlist_cong) (auto simp: H links_of_def)
  with rest a ca y di dm Cons show ?thesis
    by (auto simp: registry_def H links_of_def)
qed

lemma registry_fresh: "registry w xs \<Longrightarrow> c \<notin> set xs \<Longrightarrow> heap w c = None"
  by (auto simp: registry_def)

lemma new_ssl_conn_cb_failed:
  assumes reg: "registry w xs" and fresh: "brk w \<notin> set xs"
    and f: "acc_fd acc < 0 \<or> \<not> have_bev"
  shows "new_ssl_conn_cb P acc have_bev w =
     Some (Inr (w\<lparr>brk := Suc (brk w),
                  state_log := (state_log w)(brk w := state_log w (brk w) @ [C_SSL_CONNECTING])\<rparr>))"
proof -
  have hc: "heap w (brk w) = None" by (rule registry_fresh [OF reg fresh])
  show ?thesis
  proof (cases "connections w")
    case None
    have "(heap w)(brk w := None) = heap w" using hc by (intro ext) simp
    with None f show ?thesis
      by (auto simp: new_ssl_conn_cb_def alloc_conn_def upd_conn_Some set_state_Some
          delete_conn_def delete_conn_loop.simps unlink_conn_def free_conn_def conn_at_Some
          zero_conn_def)
  next
    case (Some h)
    from registry_head(2) [OF reg Some] obtain xh where xh: "heap w h = Some xh" "c_prev xh = None"
      by blast
    from xh hc have hne: "h \<noteq> brk w" by auto
    have xh': "xh\<lparr>c_prev := None\<rparr> = xh" by (rule conn.equality) (simp_all add: xh)
    have "(heap w)(h \<mapsto> xh, brk w := None) = heap w" using hc xh by (intro ext) simp
    with Some f xh hne show ?thesis
      by (auto simp: new_ssl_conn_cb_def alloc_conn_def upd_conn_Some set_state_Some
          delete_conn_def delete_conn_loop.simps unlink_conn_def free_conn_def conn_at_Some
          zero_conn_def xh')
  qed
qed


lemma pushed_heap_registry:
  assumes reg: "registry w xs" and fresh: "brk w \<notin> set xs"
    and y: "c_prev y = None" "c_next y = connections w"
  shows "registry (w\<lparr>heap := pushed_heap w y, connections := Some (brk w)\<rparr>) (brk w # xs)"
proof (rule registry_push [OF reg fresh _ y])
  show "pushed_heap w y =
    (case connections w of None \<Rightarrow> (heap w)(brk w \<mapsto> y)
     | Some h \<Rightarrow> (heap w)(h \<mapsto> (the (heap w h))\<lparr>c_prev := Some (brk w)\<rparr>, brk w \<mapsto> y))"
  proof (cases "connections w")
    case None
    then show ?thesis by (simp add: pushed_heap_def)
  next
    case (Some h)
    from registry_head(2) [OF reg Some] obtain xh where "heap w h = Some xh" by blast
    with Some show ?thesis by (simp add: pushed_heap_def)
  qed
qed

lemma pushed_heap_payloads:
  assumes reg: "registry w xs" and fresh: "brk w \<notin> set xs"
  shows "payloads (pushed_heap w y) = (conns w)(brk w \<mapsto> payload y)"
proof (cases "connections w")
  case None
  then show ?thesis by (simp add: pushed_heap_def)
next
  case (Some h)
  from registry_head(2) [OF reg Some] obtain xh where xh: "heap w h = Some xh" by blast
  with Some show ?thesis by (auto simp: pushed_heap_def payloads_def)
qed

lemma new_ssl_conn_cb_ok:
  assumes reg: "registry w xs" and fresh: "brk w \<notin> set xs"
    and f: "0 \<le> acc_fd acc" "have_bev"
  shows "new_ssl_conn_cb P acc have_bev w =
     Some (Inr (w\<lparr>heap := pushed_heap w (accepted_conn w acc),
                  brk := Suc (brk w), connections := Some (brk w),
                  state_log := (state_log w)(brk w := state_log w (brk w) @ [C_SSL_CONNECTING]),
                  bevs := (bevs w)(bev_brk w \<mapsto> accepted_bev (brk w) (acc_fd acc)),
                  bev_brk := Suc (bev_brk w)\<rparr>))"
proof -
  have hc: "heap w (brk w) = None" by (rule registry_fresh [OF reg fresh])
  show ?thesis
  proof (cases "connections w")
    case None
    with f show ?thesis
      by (simp add: new_ssl_conn_cb_def alloc_conn_def upd_conn_Some set_state_Some
          bufferevent_openssl_socket_new_def bev_ops upd_bev_live
          zero_conn_def pushed_heap_def accepted_conn_def accepted_bev_def new_bufferevent_def)
  next
    case (Some h)
    from registry_head(2) [OF reg Some] obtain xh where xh: "heap w h = Some xh" "c_prev xh = None"
      by blast
    from xh hc have hne: "h \<noteq> brk w" by auto
    from Some f xh hne show ?thesis
      by (simp add: new_ssl_conn_cb_def alloc_conn_def upd_conn_Some set_state_Some
          bufferevent_openssl_socket_new_def bev_ops upd_bev_live
          zero_conn_def pushed_heap_def accepted_conn_def accepted_bev_def new_bufferevent_def)
  qed
qed

section \<open>The registry of connections\<close>

text \<open>
  C8. For a state whose list \<^verbatim>\<open>connections\<close> is a well-formed doubly linked list \<open>xs\<close>
  of exactly the allocated connections, and a fresh address for the next allocation:
  \<^item> an accept that fails (or yields no bufferevent) registers the new connection and
    unregisters it again, and leaves heap, list and library tables as they were;
  \<^item> a successful accept puts the new connection at the head, once;
  \<^item> \<^verbatim>\<open>delete_conn\<close> on a registered connection returns, the list is \<open>xs\<close> without it
    (the others in their order), the object is freed, every other object keeps its
    contents, only the bufferevents and the request of the deleted connection are
    released, and a second \<^verbatim>\<open>delete_conn\<close> with the same pointer changes nothing;
  \<^item> \<^verbatim>\<open>delete_conn\<close> on a pointer that is not in the list changes nothing.
\<close>

theorem C8_registry_round_trip:
  assumes "registry w xs" and "brk w \<notin> set xs"
  shows "(acc_fd acc < 0 \<or> \<not> have_bev \<longrightarrow>
            (\<exists>w'. new_ssl_conn_cb P acc have_bev w = Some (Inr w')
               \<and> heap w' = heap w \<and> connections w' = connections w
               \<and> bevs w' = bevs w \<and> dns w' = dns w \<and> registry w' xs))
       \<and> (0 \<le> acc_fd acc \<and> have_bev \<longrightarrow>
            (\<exists>w'. new_ssl_conn_cb P acc have_bev w = Some (Inr w')
               \<and> registry w' (brk w # xs) \<and> distinct (brk w # xs)))
       \<and> (\<forall>c x. heap w c = Some x \<and> slots_ok w x \<longrightarrow>
            (\<exists>w'. delete_conn c w = Some (Inr w')
               \<and> registry w' (filter (\<lambda>a. a \<noteq> c) xs) \<and> heap w' c = None
               \<and> conns w' = (conns w)(c := None)
               \<and> bevs w' = free_slot (remote_bev x) (free_slot (local_bev x) (bevs w))
               \<and> dns w' = cancel_slot (resolver_req x) (dns w)
               \<and> delete_conn c w' = Some (Inr w')))
       \<and> (\<forall>c. c \<notin> set xs \<longrightarrow> delete_conn c w = Some (Inr w))"
proof (intro conjI impI allI)
  assume f: "acc_fd acc < 0 \<or> \<not> have_bev"
  from new_ssl_conn_cb_failed [OF assms f, of P] assms(1)
  show "\<exists>w'. new_ssl_conn_cb P acc have_bev w = Some (Inr w')
               \<and> heap w' = heap w \<and> connections w' = connections w
               \<and> bevs w' = bevs w \<and> dns w' = dns w \<and> registry w' xs"
    by simp
next
  assume f: "0 \<le> acc_fd acc \<and> have_bev"
  have "registry (w\<lparr>heap := pushed_heap w (accepted_conn w acc), connections := Some (brk w)\<rparr>)
          (brk w # xs)"
    by (rule pushed_heap_registry [OF assms]) (simp_all add: accepted_conn_def zero_conn_def)
  moreover have "distinct (brk w # xs)" using assms by (simp add: registry_def)
  ultimately have "registry (w\<lparr>heap := pushed_heap w (accepted_conn w acc),
                  brk := Suc (brk w), connections := Some (brk w),
                  state_log := (state_log w)(brk w := state_log w (brk w) @ [C_SSL_CONNECTING]),
                  bevs := (bevs w)(bev_brk w \<mapsto> accepted_bev (brk w) (acc_fd acc)),
                  bev_brk := Suc (bev_brk w)\<rparr>) (brk w # xs) \<and> distinct (brk w # xs)"
    by (simp add: registry_def)
  moreover from f have "new_ssl_conn_cb P acc have_bev w =
     Some (Inr (w\<lparr>heap := pushed_heap w (accepted_conn w acc),
                  brk := Suc (brk w), connections := Some (brk w),
                  state_log := (state_log w)(brk w := state_log w (brk w) @ [C_SSL_CONNECTING]),
                  bevs := (bevs w)(bev_brk w \<mapsto> accepted_bev (brk w) (acc_fd acc)),
                  bev_brk := Suc (bev_brk w)\<rparr>))"
    by (intro new_ssl_conn_cb_ok [OF assms]) simp_all
  ultimately show "\<exists>w'. new_ssl_conn_cb P acc have_bev w = Some (Inr w')
               \<and> registry w' (brk w # xs) \<and> distinct (brk w # xs)"
    by blast
next
  fix c x
  assume a: "heap w c = Some x \<and> slots_ok w x"
  then have x: "heap w c = Some x" and ok: "slots_ok w x" by simp_all
  from delete_conn_eval [OF assms(1) x ok] obtain h' cn' where
    d: "delete_conn c w =
            Some (Inr (w\<lparr>heap := h', connections := cn',
                   bevs := free_slot (remote_bev x) (free_slot (local_bev x) (bevs w)),
                   dns := cancel_slot (resolver_req x) (dns w)\<rparr>))"
    and r: "registry (w\<lparr>heap := h', connections := cn'\<rparr>) (remove1 c xs)"
    and p: "payloads h' = (conns w)(c := None)"
    by blast
  let ?w = "w\<lparr>heap := h', connections := cn',
                   bevs := free_slot (remote_bev x) (free_slot (local_bev x) (bevs w)),
                   dns := cancel_slot (resolver_req x) (dns w)\<rparr>"
  from assms(1) have di: "distinct xs" by (simp add: registry_def)
  then have fl: "remove1 c xs = filter (\<lambda>a. a \<noteq> c) xs"
    by (simp add: distinct_remove1_removeAll removeAll_filter_not_eq) metis
  from r have r': "registry ?w (remove1 c xs)" by (simp add: registry_def)
  have nc: "c \<notin> set (remove1 c xs)" using di by simp
  from r' have "dlist (links ?w) None (connections ?w) (remove1 c xs)" by (simp add: registry_def)
  from delete_conn_absent [OF this nc] have again: "delete_conn c ?w = Some (Inr ?w)" .
  from p have "h' c = None" by (metis fun_upd_same payloads_simps(3))
  with d r' p again show "\<exists>w'. delete_conn c w = Some (Inr w')
               \<and> registry w' (filter (\<lambda>a. a \<noteq> c) xs) \<and> heap w' c = None
               \<and> conns w' = (conns w)(c := None)
               \<and> bevs w' = free_slot (remote_bev x) (free_slot (local_bev x) (bevs w))
               \<and> dns w' = cancel_slot (resolver_req x) (dns w)
               \<and> delete_conn c w' = Some (Inr w')"
    by (intro exI [of _ ?w]) (simp add: fl)
next
  fix c assume "c \<notin> set xs"
  with assms(1) show "delete_conn c w = Some (Inr w)"
    by (intro delete_conn_absent [where pr = None and xs = xs]) (simp_all add: registry_def)
qed

lemma demo_world_fields:
  "heap demo_world = Map.empty" "brk demo_world = 0" "connections demo_world = None"
  "bevs demo_world = Map.empty" "bev_brk demo_world = 0" "dns demo_world = Map.empty"
  "req_brk demo_world = 0" "main_loop demo_world = Loop_running"
  "state_log demo_world = (\<lambda>c. [])" "parent_pid demo_world = 7"
  "watch_parent demo_world = Some (Watch_timer 5)" "sigterm_handler demo_world = Some 15"
  by (simp_all add: demo_world_def main_startup_def demo_startup_def demo_platform_def
      install_parent_watcher_def)

text \<open>Witness for C8: the state with the two connections 1 and 0.\<close>

theorem C8_registry_round_trip_witness:
  "registry demo_two [1, 0] \<and> brk demo_two \<notin> set [1, 0]
   \<and> (\<exists>w'. new_ssl_conn_cb (demo_platform send_all) ((demo_accept 2)\<lparr>acc_fd := - 1\<rparr>) True demo_two
              = Some (Inr w')
          \<and> heap w' = heap demo_two \<and> registry w' [1, 0])
   \<and> (\<exists>w'. new_ssl_conn_cb (demo_platform send_all) (demo_accept 2) True demo_two = Some (Inr w')
          \<and> registry w' [2, 1, 0])
   \<and> (\<exists>x w'. heap demo_two 0 = Some x \<and> slots_ok demo_two x
          \<and> delete_conn 0 demo_two = Some (Inr w') \<and> registry w' [1] \<and> heap w' 0 = None
          \<and> delete_conn 0 w' = Some (Inr w'))
   \<and> delete_conn 7 demo_two = Some (Inr demo_two)"
proof -
  have r: "registry demo_two [1, 0]"
    by (auto simp: registry_def demo_two_def links_of_def accepted_conn_def zero_conn_def
        demo_world_fields)
  have b: "brk demo_two = 2" by (simp add: demo_two_def)
  then have f: "brk demo_two \<notin> set [1, 0]" by simp
  define x where "x = (accepted_conn demo_world (demo_accept 2))\<lparr>c_prev := Some 1\<rparr>"
  have h: "heap demo_two 0 = Some x" by (simp add: demo_two_def x_def)
  note wb = demo_world_fields(5)
  have s: "slots_ok demo_two x"
    by (simp add: slots_ok_def x_def accepted_conn_def zero_conn_def live_bev_def demo_two_def
        accepted_bev_def new_bufferevent_def wb)
  note T = C8_registry_round_trip [OF r f, of _ _ "demo_platform send_all"]
  have "acc_fd ((demo_accept 2)\<lparr>acc_fd := - 1\<rparr>) < 0 \<or> \<not> True" by simp
  from T [of "(demo_accept 2)\<lparr>acc_fd := - 1\<rparr>" True, THEN conjunct1, THEN mp, OF this]
  have 1: "\<exists>w'. new_ssl_conn_cb (demo_platform send_all) ((demo_accept 2)\<lparr>acc_fd := - 1\<rparr>) True demo_two
              = Some (Inr w')
          \<and> heap w' = heap demo_two \<and> registry w' [1, 0]"
    by blast
  have "0 \<le> acc_fd (demo_accept 2) \<and> True" by (simp add: demo_accept_def)
  from T [of "demo_accept 2" True, THEN conjunct2, THEN conjunct1, THEN mp, OF this]
  have 2: "\<exists>w'. new_ssl_conn_cb (demo_platform send_all) (demo_accept 2) True demo_two = Some (Inr w')
          \<and> registry w' [2, 1, 0]"
    unfolding b by blast
  have fl: "filter (\<lambda>a. a \<noteq> 0) [1, 0 :: nat] = [1]" by simp
  from T [of "demo_accept 2" True, THEN conjunct2, THEN conjunct2, THEN conjunct1, THEN spec,
      THEN spec, THEN mp, OF conjI [OF h s]]
  have 3: "\<exists>w'. delete_conn 0 demo_two = Some (Inr w') \<and> registry w' [1] \<and> heap w' 0 = None
          \<and> delete_conn 0 w' = Some (Inr w')"
    unfolding fl by blast
  have "7 \<notin> set [1, 0 :: nat]" by simp
  from T [of "demo_accept 2" True, THEN conjunct2, THEN conjunct2, THEN conjunct2, THEN spec,
      THEN mp, OF this]
  have 4: "delete_conn 7 demo_two = Some (Inr demo_two)" .
  from r f 1 2 3 4 h s show ?thesis by blast
qed

lemmas demo_run_defs =
  demo_established_def demo_established_events_def world_after_def demo_world_def
  main_startup_def demo_startup_def demo_platform_def install_parent_watcher_def
  new_ssl_conn_cb_def alloc_conn_def zero_conn_def upd_conn_def set_state_def
  demo_accept_def bufferevent_openssl_socket_new_def new_bufferevent_def
  bufferevent_setcb_def upd_bev_def bev_at_def bufferevent_set_timeouts_def
  bufferevent_enable_def fire_bev_event_def ssl_event_cb_def conn_at_def
  ssl_connected_def nonnull_def evdns_getnameinfo_def evdns_base_resolve_reverse_def
  fire_dns_done_def address_resolved_def lookup_failed_def DNS_ERR_NONE_def DNS_ERR_CANCEL_def
  DNS_PTR_def bufferevent_socket_new_def bufferevent_socket_connect_def
  local_connected_def socket_sent_def send_all_def

lemma demo_established_fields:
  "heap demo_established =
     [0 \<mapsto> \<lparr>state = C_ESTABLISHED, remote_addrfam = 0, remote_addrlen = 16,
           remote_addr = \<lparr>sa_family = 2, sa_data = ''203.0.113.7''\<rparr>,
           remote_host = Some ''client.example.org'', remote_ip = Some ''203.0.113.7'',
           local_bev = Some 1, remote_bev = Some 0,
           resolver_req = None, c_next = None, c_prev = None\<rparr>]"
  "connections demo_established = Some 0"
  "watch_parent demo_established = Some (Watch_timer 5)"
  "main_loop demo_established = Loop_running"
  "parent_pid demo_established = 7"
  by (simp_all add: demo_run_defs Let_def)


lemma delivered_Nil [simp]: "delivered n i [] = 0"
  by (simp add: delivered_def)












section \<open>The relay callback\<close>



lemma quiesce_idem [simp]: "quiesce (quiesce be) = quiesce be"
  by (simp add: quiesce_def)

lemma qmap_qmap: "qmap T2 (qmap T1 B) = qmap (T1 \<union> T2) B"
  by (rule ext) (auto simp: qmap_def option.map_comp comp_def)

lemma qmap_empty [simp]: "qmap {} B = B"
  by (simp add: qmap_def)

lemma quiesce_step:
  assumes "bevs w b = Some be" "\<not> be_freed be"
  shows "then_do (bufferevent_disable b {EV_READ} w) (bufferevent_flush b) =
         Inr (w\<lparr>bevs := qmap {b} (bevs w)\<rparr>)"
proof -
  have "(bevs w)(b \<mapsto> quiesce be) = qmap {b} (bevs w)"
    using assms by (intro ext) (simp add: qmap_def)
  with assms show ?thesis
    by (simp add: bufferevent_disable_def bufferevent_flush_def upd_bev_live quiesce_def)
qed

lemma quiesce_slot:
  assumes "\<And>b. s = Some b \<Longrightarrow> live_bev w b"
  shows "(case s of Some b \<Rightarrow> then_do (bufferevent_disable b {EV_READ} w) (bufferevent_flush b)
          | None \<Rightarrow> Inr w) = Inr (w\<lparr>bevs := qmap (set_option s) (bevs w)\<rparr>)"
proof (cases s)
  case None
  then show ?thesis by simp
next
  case (Some b)
  with assms obtain be where "bevs w b = Some be" "\<not> be_freed be"
    by (auto simp: live_bev_def split: option.splits)
  with Some show ?thesis by (simp add: quiesce_step)
qed

lemma live_bev_qmap [simp]: "live_bev (w\<lparr>bevs := qmap T (bevs w)\<rparr>) b = live_bev w b"
  by (auto simp: live_bev_def qmap_def quiesce_def split: option.splits)

lemma close_one_eval:
  assumes x: "heap w p = Some x"
    and live: "\<And>b. b \<in> close_targets fl x \<Longrightarrow> live_bev w b"
  shows "close_one fl p w =
     Inr (c_next x,
          w\<lparr>heap := (heap w)(p \<mapsto> x\<lparr>state := C_SHUTTINGDOWN\<rparr>),
            state_log := (state_log w)(p := state_log w p @ [C_SHUTTINGDOWN]),
            bevs := qmap (close_targets fl x) (bevs w)\<rparr>)"
proof -
  define w1 where "w1 = w\<lparr>heap := (heap w)(p \<mapsto> x\<lparr>state := C_SHUTTINGDOWN\<rparr>),
            state_log := (state_log w)(p := state_log w p @ [C_SHUTTINGDOWN])\<rparr>"
  define w2 where "w2 = w1\<lparr>bevs := qmap (set_option (remote_bev x)) (bevs w1)\<rparr>"
  define w3 where "w3 = w2\<lparr>bevs := qmap (set_option (if fl then local_bev x else None)) (bevs w2)\<rparr>"
  have s1: "set_state p C_SHUTTINGDOWN w = Inr w1"
    by (simp add: set_state_Some [OF x] w1_def)
  have c1: "conn_at p w1 = Inr (x\<lparr>state := C_SHUTTINGDOWN\<rparr>)"
    by (simp add: conn_at_def w1_def)
  have r: "\<And>b. remote_bev x = Some b \<Longrightarrow> live_bev w1 b"
    using live by (simp add: close_targets_def live_bev_def w1_def)
  have s2: "(case remote_bev x of
          Some rb \<Rightarrow> then_do (bufferevent_disable rb {EV_READ} w1) (bufferevent_flush rb)
        | None \<Rightarrow> Inr w1) = Inr w2"
    unfolding w2_def by (rule quiesce_slot [OF r])
  have l: "\<And>b. (if fl then local_bev x else None) = Some b \<Longrightarrow> live_bev w2 b"
  proof -
    fix b assume "(if fl then local_bev x else None) = Some b"
    then have "b \<in> close_targets fl x" by (auto simp: close_targets_def split: if_splits)
    from live [OF this] show "live_bev w2 b"
      by (auto simp: live_bev_def qmap_def quiesce_def w2_def w1_def split: option.splits)
  qed
  have s3: "(case (if fl then local_bev x else None) of
          Some lb \<Rightarrow> then_do (bufferevent_disable lb {EV_READ} w2) (bufferevent_flush lb)
        | None \<Rightarrow> Inr w2) = Inr w3"
    unfolding w3_def by (rule quiesce_slot [OF l])
  have sel: "remote_bev (x\<lparr>state := C_SHUTTINGDOWN\<rparr>) = remote_bev x"
    "local_bev (x\<lparr>state := C_SHUTTINGDOWN\<rparr>) = local_bev x"
    "c_next (x\<lparr>state := C_SHUTTINGDOWN\<rparr>) = c_next x"
    by simp_all
  have "close_one fl p w = Inr (c_next x, w3)"
    unfolding close_one_def
    by (simp only: s1 then_do_simps c1 sel s2 s3)
  also have "w3 = w\<lparr>heap := (heap w)(p \<mapsto> x\<lparr>state := C_SHUTTINGDOWN\<rparr>),
            state_log := (state_log w)(p := state_log w p @ [C_SHUTTINGDOWN]),
            bevs := qmap (close_targets fl x) (bevs w)\<rparr>"
    by (simp add: w3_def w2_def w1_def qmap_qmap close_targets_def)
  finally show ?thesis .
qed

lemma closed_world_Nil [simp]: "closed_world fl [] w = w"
  by (simp add: closed_world_def all_targets_def)

lemma all_targets_Cons:
  "heap w a = Some x \<Longrightarrow>
   all_targets fl w (a # as) = close_targets fl x \<union> all_targets fl w as"
  by (simp add: all_targets_def)

lemma all_targets_cong:
  "(\<And>c. c \<in> set xs \<Longrightarrow> heap w' c = heap w c) \<Longrightarrow> all_targets fl w' xs = all_targets fl w xs"
  by (simp add: all_targets_def)

lemma closed_world_Cons:
  assumes x: "heap w a = Some x" and a: "a \<notin> set as"
  shows "closed_world fl as
           (w\<lparr>heap := (heap w)(a \<mapsto> x\<lparr>state := C_SHUTTINGDOWN\<rparr>),
              state_log := (state_log w)(a := state_log w a @ [C_SHUTTINGDOWN]),
              bevs := qmap (close_targets fl x) (bevs w)\<rparr>)
         = closed_world fl (a # as) w"
proof -
  define w1 where "w1 = w\<lparr>heap := (heap w)(a \<mapsto> x\<lparr>state := C_SHUTTINGDOWN\<rparr>),
              state_log := (state_log w)(a := state_log w a @ [C_SHUTTINGDOWN]),
              bevs := qmap (close_targets fl x) (bevs w)\<rparr>"
  define H where "H = (\<lambda>c. if c \<in> set (a # as)
                 then map_option (\<lambda>x. x\<lparr>state := C_SHUTTINGDOWN\<rparr>) (heap w c)
                 else heap w c)"
  define L where "L = (\<lambda>c. if c \<in> set (a # as) then state_log w c @ [C_SHUTTINGDOWN]
                 else state_log w c)"
  define B where "B = qmap (all_targets fl w (a # as)) (bevs w)"
  have sel: "heap w1 = (heap w)(a \<mapsto> x\<lparr>state := C_SHUTTINGDOWN\<rparr>)"
    "state_log w1 = (state_log w)(a := state_log w a @ [C_SHUTTINGDOWN])"
    "bevs w1 = qmap (close_targets fl x) (bevs w)"
    by (simp_all add: w1_def)
  have t: "all_targets fl w1 as = all_targets fl w as"
    using a by (intro all_targets_cong) (auto simp: sel)
  have h: "(\<lambda>c. if c \<in> set as
                 then map_option (\<lambda>x. x\<lparr>state := C_SHUTTINGDOWN\<rparr>) (heap w1 c)
                 else heap w1 c) = H"
    using a x by (intro ext) (auto simp: sel H_def)
  have l: "(\<lambda>c. if c \<in> set as then state_log w1 c @ [C_SHUTTINGDOWN] else state_log w1 c) = L"
    using a by (intro ext) (auto simp: sel L_def)
  have b: "qmap (all_targets fl w1 as) (bevs w1) = B"
    by (simp add: t sel qmap_qmap B_def all_targets_Cons [OF x])
  have "closed_world fl as w1 = w1\<lparr>heap := H, state_log := L, bevs := B\<rparr>"
    by (simp only: closed_world_def h l b)
  also have "\<dots> = w\<lparr>heap := H, state_log := L, bevs := B\<rparr>"
    by (simp add: w1_def)
  also have "\<dots> = closed_world fl (a # as) w"
    by (simp only: closed_world_def H_def L_def B_def)
  finally show ?thesis by (simp only: w1_def)
qed

lemma close_loop_eval:
  assumes "dlist (links w) pr cur xs" and "distinct xs"
    and "\<And>c x b. c \<in> set xs \<Longrightarrow> heap w c = Some x \<Longrightarrow> b \<in> close_targets fl x \<Longrightarrow> live_bev w b"
  shows "close_connections_loop fl cur w = Some (Inr (closed_world fl xs w))"
  using assms
proof (induction xs arbitrary: w pr cur)
  case Nil
  then show ?case by (simp add: close_connections_loop.simps)
next
  case (Cons a as)
  from Cons.prems(1) [unfolded dlist_Cons_heap] obtain x where
    cur: "cur = Some a" and x: "heap w a = Some x"
    and d: "dlist (links w) (Some a) (c_next x) as" by blast
  from Cons.prems(2) have a: "a \<notin> set as" and dis: "distinct as" by simp_all
  define w1 where "w1 = w\<lparr>heap := (heap w)(a \<mapsto> x\<lparr>state := C_SHUTTINGDOWN\<rparr>),
              state_log := (state_log w)(a := state_log w a @ [C_SHUTTINGDOWN]),
              bevs := qmap (close_targets fl x) (bevs w)\<rparr>"
  have one: "close_one fl a w = Inr (c_next x, w1)"
    unfolding w1_def by (rule close_one_eval [OF x]) (rule Cons.prems(3) [OF _ x], simp)
  have hw1: "\<And>c. c \<noteq> a \<Longrightarrow> heap w1 c = heap w c" by (simp add: w1_def)
  have d1: "dlist (links w1) (Some a) (c_next x) as"
  proof -
    have "\<And>c. c \<in> set as \<Longrightarrow> heap w1 c = heap w c"
      using a by (auto simp: w1_def)
    then have "dlist (links w1) (Some a) (c_next x) as = dlist (links w) (Some a) (c_next x) as"
      by (intro dlist_cong) (simp add: links_of_def)
    with d show ?thesis by simp
  qed
  have live1: "\<And>c y b. c \<in> set as \<Longrightarrow> heap w1 c = Some y \<Longrightarrow> b \<in> close_targets fl y
                 \<Longrightarrow> live_bev w1 b"
  proof -
    fix c y b assume c: "c \<in> set as" and y: "heap w1 c = Some y" and b: "b \<in> close_targets fl y"
    from c a have "c \<noteq> a" by auto
    with y have "heap w c = Some y" by (simp add: hw1)
    from Cons.prems(3) [OF _ this b] c have "live_bev w b" by simp
    then show "live_bev w1 b"
      by (auto simp: w1_def live_bev_def qmap_def quiesce_def split: option.splits)
  qed
  have "close_connections_loop fl (c_next x) w1 = Some (Inr (closed_world fl as w1))"
    by (rule Cons.IH [OF d1 dis]) (rule live1, assumption+)
  also have "closed_world fl as w1 = closed_world fl (a # as) w"
    unfolding w1_def by (rule closed_world_Cons [OF x a])
  finally show ?case
    by (subst close_connections_loop.simps) (simp add: cur one)
qed

lemma close_connections_eval:
  assumes "registry w xs"
    and "\<And>c x b. c \<in> set xs \<Longrightarrow> heap w c = Some x \<Longrightarrow> b \<in> close_targets fl x \<Longrightarrow> live_bev w b"
  shows "close_connections fl w = Some (Inr (closed_world fl xs w))"
proof -
  from assms(1) have d: "dlist (links w) None (connections w) xs" and dis: "distinct xs"
    by (simp_all add: registry_def)
  show ?thesis
    unfolding close_connections_def
    by (rule close_loop_eval [OF d dis]) (rule assms(2), assumption+)
qed

lemma run_break: "main_loop w = Loop_break \<Longrightarrow> run P w evs = Some (Inr w)"
  by (cases evs) simp_all

lemma closed_world_fields [simp]:
  "connections (closed_world fl xs w) = connections w"
  "dns (closed_world fl xs w) = dns w"
  "main_loop (closed_world fl xs w) = main_loop w"
  "brk (closed_world fl xs w) = brk w"
  "bevs (closed_world fl xs w) = qmap (all_targets fl w xs) (bevs w)"
  "heap (closed_world fl xs w) c =
     (if c \<in> set xs then map_option (\<lambda>x. x\<lparr>state := C_SHUTTINGDOWN\<rparr>) (heap w c) else heap w c)"
  "state_log (closed_world fl xs w) c =
     (if c \<in> set xs then state_log w c @ [C_SHUTTINGDOWN] else state_log w c)"
  by (simp_all add: closed_world_def)

lemma closed_world_links: "links (closed_world fl xs w) = links w"
  by (rule ext) (simp add: links_of_def option.map_comp comp_def)

lemma closed_world_registry: "registry w xs \<Longrightarrow> registry (closed_world fl ys w) xs"
  by (auto simp: registry_def closed_world_links dom_def)

lemma qmap_Some: "qmap T B b = Some be' \<Longrightarrow> \<exists>be. B b = Some be \<and> (be' = be \<or> be' = quiesce be)"
  by (auto simp: qmap_def split: if_splits)

lemma slots_owned_mono:
  assumes o: "slots_owned w c x"
    and l: "\<And>b. live_bev w b \<Longrightarrow> live_bev w' b"
    and k: "\<And>b be'. bevs w' b = Some be'
              \<Longrightarrow> \<exists>be. bevs w b = Some be \<and> be_cbarg be' = be_cbarg be"
    and d: "\<And>r. dns w r \<noteq> None \<Longrightarrow> dns w' r \<noteq> None"
    and s: "local_bev x' = local_bev x" "remote_bev x' = remote_bev x"
      "resolver_req x' = resolver_req x"
  shows "slots_owned w' c x'"
proof -
  from o have ok: "slots_ok w x"
    and own: "\<And>b be. b \<in> set_option (local_bev x) \<union> set_option (remote_bev x) \<Longrightarrow>
             bevs w b = Some be \<Longrightarrow> be_cbarg be = Some c"
    unfolding slots_owned_def by blast+
  have ok': "slots_ok w' x'"
    using ok l d unfolding slots_ok_def s by (auto split: option.splits)
  have own': "\<And>b be'. b \<in> set_option (local_bev x') \<union> set_option (remote_bev x') \<Longrightarrow>
             bevs w' b = Some be' \<Longrightarrow> be_cbarg be' = Some c"
  proof -
    fix b be' assume b: "b \<in> set_option (local_bev x') \<union> set_option (remote_bev x')"
      and e: "bevs w' b = Some be'"
    from k [OF e] obtain be where "bevs w b = Some be" "be_cbarg be' = be_cbarg be" by blast
    with own [of b be] b show "be_cbarg be' = Some c" by (simp add: s)
  qed
  from ok' own' show ?thesis unfolding slots_owned_def by blast
qed

lemma slots_owned_closed:
  assumes "slots_owned w c x"
  shows "slots_owned (closed_world fl ys w\<lparr>main_loop := m\<rparr>) c (x\<lparr>state := C_SHUTTINGDOWN\<rparr>)"
    and "slots_owned (closed_world fl ys w\<lparr>main_loop := m\<rparr>) c x"
proof -
  have l: "\<And>b. live_bev w b \<Longrightarrow> live_bev (closed_world fl ys w\<lparr>main_loop := m\<rparr>) b"
    by (auto simp: live_bev_def qmap_def quiesce_def split: option.splits)
  have o: "\<And>b be'. bevs (closed_world fl ys w\<lparr>main_loop := m\<rparr>) b = Some be'
              \<Longrightarrow> \<exists>be. bevs w b = Some be \<and> be_cbarg be' = be_cbarg be"
    by (auto simp: quiesce_def dest!: qmap_Some)
  show "slots_owned (closed_world fl ys w\<lparr>main_loop := m\<rparr>) c (x\<lparr>state := C_SHUTTINGDOWN\<rparr>)"
    by (rule slots_owned_mono [OF assms l o]) simp_all
  show "slots_owned (closed_world fl ys w\<lparr>main_loop := m\<rparr>) c x"
    by (rule slots_owned_mono [OF assms l o]) simp_all
qed

lemma free_slot_other: "s \<noteq> Some b \<Longrightarrow> free_slot s B b = B b"
  by (auto simp: free_slot_def split: option.splits)

lemma free_slot_cbarg:
  "free_slot s B b = Some be' \<Longrightarrow> \<exists>be. B b = Some be \<and> be_cbarg be' = be_cbarg be"
  by (cases s) (auto simp: free_slot_def split: option.splits if_splits)

lemma cancel_slot_dom: "D r \<noteq> None \<Longrightarrow> cancel_slot s D r \<noteq> None"
  by (auto simp: cancel_slot_def split: option.splits)

lemma cleanup_one_eval:
  assumes x: "heap w a = Some x" and ok: "slots_ok w x"
  shows "\<exists>w'. cleanup_one a w = Inr (c_next x, w')
           \<and> heap w' = (heap w)(a := None) \<and> connections w' = connections w
           \<and> (\<forall>b. local_bev x \<noteq> Some b \<longrightarrow> remote_bev x \<noteq> Some b \<longrightarrow> bevs w' b = bevs w b)
           \<and> (\<forall>b be'. bevs w' b = Some be'
                 \<longrightarrow> (\<exists>be. bevs w b = Some be \<and> be_cbarg be' = be_cbarg be))
           \<and> (\<forall>r. dns w r \<noteq> None \<longrightarrow> dns w' r \<noteq> None)"
proof -
  define B0 where "B0 = (case remote_bev x of None \<Rightarrow> bevs w
      | Some rb \<Rightarrow> (case bevs w rb of None \<Rightarrow> bevs w
                     | Some be \<Rightarrow> (bevs w)(rb \<mapsto> be\<lparr>be_ssl_shutdown := True\<rparr>)))"
  define w0 where "w0 = w\<lparr>bevs := B0\<rparr>"
  have s: "(case remote_bev x of Some rb \<Rightarrow> SSL_shutdown rb w | None \<Rightarrow> Inr w) = Inr w0"
    using ok
    by (auto simp: slots_ok_def live_bev_def SSL_shutdown_def upd_bev_live w0_def B0_def
        split: option.splits)
  have B0o: "\<And>b. remote_bev x \<noteq> Some b \<Longrightarrow> B0 b = bevs w b"
    by (auto simp: B0_def split: option.splits)
  have B0c: "\<And>b be'. B0 b = Some be' \<Longrightarrow> \<exists>be. bevs w b = Some be \<and> be_cbarg be' = be_cbarg be"
    by (auto simp: B0_def split: option.splits if_splits)
  have l0: "\<And>b. live_bev w0 b = live_bev w b"
    by (auto simp: live_bev_def w0_def B0_def split: option.splits)
  have ok0: "slots_ok w0 x"
    using ok unfolding slots_ok_def l0 by (simp add: w0_def cong: option.case_cong)
  have x0: "heap w0 a = Some x" using x by (simp add: w0_def)
  define w' where "w' = w0\<lparr>heap := (heap w0)(a := None),
            bevs := free_slot (remote_bev x) (free_slot (local_bev x) (bevs w0)),
            dns := cancel_slot (resolver_req x) (dns w0)\<rparr>"
  have f: "free_conn a w0 = Inr w'"
    unfolding w'_def by (rule free_conn_eval [OF x0 ok0])
  have c: "conn_at a w = Inr x" using x by (simp add: conn_at_def)
  have one: "cleanup_one a w = Inr (c_next x, w')"
    unfolding cleanup_one_def by (simp only: c then_do_simps s f)
  have h: "heap w' = (heap w)(a := None)" "connections w' = connections w"
    by (simp_all add: w'_def w0_def)
  have b: "bevs w' = free_slot (remote_bev x) (free_slot (local_bev x) B0)"
    by (simp add: w'_def w0_def)
  have o: "\<forall>b. local_bev x \<noteq> Some b \<longrightarrow> remote_bev x \<noteq> Some b \<longrightarrow> bevs w' b = bevs w b"
    by (simp add: b free_slot_other B0o)
  have k: "\<forall>b be'. bevs w' b = Some be'
                 \<longrightarrow> (\<exists>be. bevs w b = Some be \<and> be_cbarg be' = be_cbarg be)"
  proof (intro allI impI)
    fix b be' assume "bevs w' b = Some be'"
    then have "free_slot (remote_bev x) (free_slot (local_bev x) B0) b = Some be'"
      by (simp add: b)
    from free_slot_cbarg [OF this] obtain be1 where
      1: "free_slot (local_bev x) B0 b = Some be1" "be_cbarg be' = be_cbarg be1" by blast
    from free_slot_cbarg [OF 1(1)] obtain be2 where
      2: "B0 b = Some be2" "be_cbarg be1 = be_cbarg be2" by blast
    from B0c [OF 2(1)] obtain be where "bevs w b = Some be" "be_cbarg be2 = be_cbarg be" by blast
    with 1 2 show "\<exists>be. bevs w b = Some be \<and> be_cbarg be' = be_cbarg be" by simp
  qed
  have d: "\<forall>r. dns w r \<noteq> None \<longrightarrow> dns w' r \<noteq> None"
    by (simp add: w'_def w0_def cancel_slot_dom)
  from one h o k d show ?thesis by blast
qed

lemma main_cleanup_total:
  assumes "dlist (links w) pr cur xs" and "distinct xs"
    and "\<And>c x. c \<in> set xs \<Longrightarrow> heap w c = Some x \<Longrightarrow> slots_owned w c x"
  shows "\<exists>w'. main_cleanup cur w = Some (Inr w')"
  using assms
proof (induction xs arbitrary: w pr cur)
  case Nil
  then show ?case by (simp add: main_cleanup.simps)
next
  case (Cons a as)
  from Cons.prems(1) [unfolded dlist_Cons_heap] obtain x where
    cur: "cur = Some a" and x: "heap w a = Some x"
    and d: "dlist (links w) (Some a) (c_next x) as" by blast
  from Cons.prems(2) have a: "a \<notin> set as" and dis: "distinct as" by simp_all
  have ox: "slots_owned w a x" by (rule Cons.prems(3) [OF _ x]) simp
  then have ok: "slots_ok w x" by (simp add: slots_owned_def)
  from cleanup_one_eval [OF x ok] obtain w1 where
    one: "cleanup_one a w = Inr (c_next x, w1)"
    and h: "heap w1 = (heap w)(a := None)"
    and o: "\<And>b. local_bev x \<noteq> Some b \<Longrightarrow> remote_bev x \<noteq> Some b \<Longrightarrow> bevs w1 b = bevs w b"
    and k: "\<And>b be'. bevs w1 b = Some be'
                 \<Longrightarrow> \<exists>be. bevs w b = Some be \<and> be_cbarg be' = be_cbarg be"
    and q: "\<And>r. dns w r \<noteq> None \<Longrightarrow> dns w1 r \<noteq> None"
    by blast
  have d1: "dlist (links w1) (Some a) (c_next x) as"
  proof -
    have "\<And>c. c \<in> set as \<Longrightarrow> heap w1 c = heap w c"
      using a by (auto simp: h)
    then have "dlist (links w1) (Some a) (c_next x) as = dlist (links w) (Some a) (c_next x) as"
      by (intro dlist_cong) (simp add: links_of_def)
    with d show ?thesis by simp
  qed
  have own1: "\<And>c y. c \<in> set as \<Longrightarrow> heap w1 c = Some y \<Longrightarrow> slots_owned w1 c y"
  proof -
    fix c y assume c: "c \<in> set as" and y: "heap w1 c = Some y"
    from c a have ca: "c \<noteq> a" by auto
    with y have yw: "heap w c = Some y" by (simp add: h)
    have oy: "slots_owned w c y" by (rule Cons.prems(3) [OF _ yw]) (simp add: c)
    have notx: "\<And>b. live_bev w b \<Longrightarrow> b \<in> set_option (local_bev y) \<union> set_option (remote_bev y)
                  \<Longrightarrow> local_bev x \<noteq> Some b \<and> remote_bev x \<noteq> Some b"
    proof -
      fix b assume l: "live_bev w b"
        and b: "b \<in> set_option (local_bev y) \<union> set_option (remote_bev y)"
      from l obtain be where be: "bevs w b = Some be"
        by (auto simp: live_bev_def split: option.splits)
      from oy b be have "be_cbarg be = Some c" unfolding slots_owned_def by blast
      moreover have "b \<in> set_option (local_bev x) \<union> set_option (remote_bev x)
                      \<Longrightarrow> be_cbarg be = Some a"
        using ox be unfolding slots_owned_def by blast
      ultimately show "local_bev x \<noteq> Some b \<and> remote_bev x \<noteq> Some b"
        using ca by auto
    qed
    from oy have oky: "slots_ok w y"
      and owny: "\<And>b be. b \<in> set_option (local_bev y) \<union> set_option (remote_bev y) \<Longrightarrow>
             bevs w b = Some be \<Longrightarrow> be_cbarg be = Some c"
      unfolding slots_owned_def by blast+
    have live_y: "\<And>b. b \<in> set_option (local_bev y) \<union> set_option (remote_bev y)
                   \<Longrightarrow> live_bev w b"
      using oky by (auto simp: slots_ok_def split: option.splits)
    have keep: "\<And>b. b \<in> set_option (local_bev y) \<union> set_option (remote_bev y)
                   \<Longrightarrow> bevs w1 b = bevs w b"
    proof -
      fix b assume b: "b \<in> set_option (local_bev y) \<union> set_option (remote_bev y)"
      from notx [OF live_y [OF b] b] show "bevs w1 b = bevs w b" by (simp add: o)
    qed
    have ok1: "slots_ok w1 y"
      using oky keep live_y q unfolding slots_ok_def live_bev_def
      by (auto split: option.splits)
    have own1: "\<And>b be. b \<in> set_option (local_bev y) \<union> set_option (remote_bev y) \<Longrightarrow>
             bevs w1 b = Some be \<Longrightarrow> be_cbarg be = Some c"
      using owny keep by simp
    from ok1 own1 show "slots_owned w1 c y" unfolding slots_owned_def by blast
  qed
  have "\<exists>w'. main_cleanup (c_next x) w1 = Some (Inr w')"
    by (rule Cons.IH [OF d1 dis]) (rule own1, assumption+)
  then show ?case
    by (subst main_cleanup.simps) (simp add: cur one)
qed

lemma check_parent_eval:
  assumes reg: "registry w xs"
    and own: "\<forall>c\<in>set xs. \<forall>x. heap w c = Some x \<longrightarrow> slots_owned w c x"
    and ne: "ppid \<noteq> parent_pid w"
  shows "check_parent ppid w = Some (Inr (closed_world False xs w\<lparr>main_loop := Loop_break\<rparr>))"
proof -
  have live: "\<And>c x b. c \<in> set xs \<Longrightarrow> heap w c = Some x \<Longrightarrow> b \<in> close_targets False x
                \<Longrightarrow> live_bev w b"
  proof -
    fix c x b assume "c \<in> set xs" "heap w c = Some x" and b: "b \<in> close_targets False x"
    with own have "slots_ok w x" by (simp add: slots_owned_def)
    with b show "live_bev w b" by (auto simp: slots_ok_def close_targets_def split: option.splits)
  qed
  have "close_connections False w = Some (Inr (closed_world False xs w))"
    by (rule close_connections_eval [OF reg]) (rule live, assumption+)
  with ne show ?thesis
    by (simp add: check_parent_def event_base_loopbreak_def)
qed

lemma registered_remote_target:
  "c \<in> set xs \<Longrightarrow> heap w c = Some x \<Longrightarrow> remote_bev x = Some rb \<Longrightarrow> rb \<in> all_targets fl w xs"
  by (auto simp: all_targets_def close_targets_def intro!: bexI [of _ c])

lemma local_not_remote_target:
  assumes own: "\<forall>c\<in>set xs. \<forall>x. heap w c = Some x \<longrightarrow> slots_owned w c x"
    and c: "c \<in> set xs" and x: "heap w c = Some x" and lb: "local_bev x = Some lb"
  shows "lb \<notin> all_targets False w xs"
proof
  assume "lb \<in> all_targets False w xs"
  then obtain d y where d: "d \<in> set xs" and y: "heap w d = Some y" and r: "remote_bev y = Some lb"
    by (auto simp: all_targets_def close_targets_def split: option.splits)
  from own c x have ox: "slots_owned w c x" by blast
  from own d y have oy: "slots_owned w d y" by blast
  from ox lb obtain be where be: "bevs w lb = Some be"
    by (auto simp: slots_owned_def slots_ok_def live_bev_def split: option.splits)
  from ox lb be have "be_cbarg be = Some c" unfolding slots_owned_def by auto
  moreover from oy r be have "be_cbarg be = Some d" unfolding slots_owned_def by auto
  ultimately have "d = c" by simp
  with x y have "y = x" by simp
  with r have "remote_bev x = Some lb" by simp
  with ox lb show False by (auto simp: slots_owned_def slots_ok_def)
qed

lemma output_of_qmap [simp]: "output_of (w\<lparr>bevs := qmap T (bevs w)\<rparr>) b = output_of w b"
  by (auto simp: output_of_def qmap_def quiesce_def split: option.splits)

lemma output_of_closed: "output_of (closed_world fl xs w\<lparr>main_loop := m\<rparr>) b = output_of w b"
  by (auto simp: output_of_def qmap_def quiesce_def split: option.splits)

lemma slots_owned_free_base:
  assumes "slots_owned w c x" and "resolver_req x = None"
  shows "slots_owned (evdns_base_free (close_ssl_sock w)) c x"
  using assms
  by (simp add: slots_owned_def slots_ok_def live_bev_def evdns_base_free_def
      close_ssl_sock_def cong: option.case_cong)

lemma dispatch_after_break:
  assumes reg: "registry w xs"
    and own: "\<forall>c\<in>set xs. \<forall>x. heap w c = Some x \<longrightarrow> slots_owned w c x"
    and nr: "\<forall>c\<in>set xs. \<forall>x. heap w c = Some x \<longrightarrow> resolver_req x = None"
    and ne: "ppid \<noteq> parent_pid w"
    and t: "is_timer (watch_parent w)" and m: "main_loop w \<noteq> Loop_break"
  shows "main_dispatch P w (Timer_tick ppid # evs) = Some (Inr EXIT_SUCCESS)"
proof -
  define w' where "w' = closed_world False xs w\<lparr>main_loop := Loop_break\<rparr>"
  define w2 where "w2 = evdns_base_free (close_ssl_sock w')"
  have f: "fire P w (Timer_tick ppid) = Some (Inr w')"
    using t by (simp add: check_parent_eval [OF reg own ne] w'_def)
  have b: "main_loop w' = Loop_break" by (simp add: w'_def)
  have r: "run P w (Timer_tick ppid # evs) = Some (Inr w')"
    using m by (simp add: f run_break [OF b] del: fire.simps)
  have h2: "heap w2 = heap w'" "connections w2 = connections w'"
    by (simp_all add: w2_def evdns_base_free_def close_ssl_sock_def)
  have reg': "registry (closed_world False xs w) xs" by (rule closed_world_registry [OF reg])
  then have d: "dlist (links w2) None (connections w2) xs" and dis: "distinct xs"
    unfolding h2 by (simp_all add: registry_def w'_def)
  have own': "\<And>c y. c \<in> set xs \<Longrightarrow> heap w2 c = Some y \<Longrightarrow> slots_owned w2 c y"
  proof -
    fix c y assume c: "c \<in> set xs" and y: "heap w2 c = Some y"
    from y c obtain x where x: "heap w c = Some x" and yx: "y = x\<lparr>state := C_SHUTTINGDOWN\<rparr>"
      by (auto simp: h2 w'_def)
    from own c x have "slots_owned w c x" by blast
    then have "slots_owned w' c y"
      unfolding w'_def yx by (rule slots_owned_closed(1))
    moreover from nr c x have "resolver_req y = None" by (simp add: yx)
    ultimately show "slots_owned w2 c y"
      unfolding w2_def by (rule slots_owned_free_base)
  qed
  have "\<exists>w''. main_cleanup (connections w2) w2 = Some (Inr w'')"
    by (rule main_cleanup_total [OF d dis]) (rule own', assumption+)
  then show ?thesis
    unfolding main_dispatch_def r by (auto simp: Let_def w2_def)
qed

section \<open>Shutdown when the parent is gone\<close>

text \<open>
  What \<^verbatim>\<open>check_parent\<close> does. When neither \<^verbatim>\<open>prctl\<close> nor \<^verbatim>\<open>kqueue\<close> gave a watcher,
  \<^verbatim>\<open>main\<close> records \<^verbatim>\<open>getppid()\<close> in \<^verbatim>\<open>parent_pid\<close> and registers \<^verbatim>\<open>check_parent\<close> on a
  timer of 5 seconds; each tick of that timer runs \<^verbatim>\<open>check_parent\<close>. With the parent
  unchanged it does nothing. On a mismatch, in a state whose list holds the connections
  \<open>xs\<close>, each owning the bufferevents in its slots: every connection of the list gets
  the state \<^verbatim>\<open>C_SHUTTINGDOWN\<close>; each of their remote bufferevents is disabled for reading
  and flushed, and nothing else of it changes; their local bufferevents are left exactly
  as they were, and no bufferevent at all gets more output; the loop is broken, so that
  it returns whatever events are still to come. When no connection of the list has a
  reverse lookup pending, \<^verbatim>\<open>main\<close> then frees the connections and returns
  \<^verbatim>\<open>EXIT_SUCCESS\<close>.
\<close>

theorem check_parent_polling:
  assumes reg: "registry w xs"
    and own: "\<forall>c\<in>set xs. \<forall>x. heap w c = Some x \<longrightarrow> slots_owned w c x"
  shows
  "(install_parent_watcher P env = None \<and> 0 \<le> read_len env \<and> ssl_init env \<longrightarrow>
      (\<exists>w0. main_startup P env = Inr w0 \<and> watch_parent w0 = Some (Watch_timer 5)
            \<and> parent_pid w0 = getppid env))
   \<and> (is_timer (watch_parent w) \<longrightarrow> fire P w (Timer_tick ppid) = check_parent ppid w)
   \<and> (ppid = parent_pid w \<longrightarrow> check_parent ppid w = Some (Inr w))
   \<and> (ppid \<noteq> parent_pid w \<longrightarrow>
       (\<exists>w'. check_parent ppid w = Some (Inr w')
          \<and> w' = closed_world False xs w\<lparr>main_loop := Loop_break\<rparr>
          \<and> (\<forall>c\<in>set xs. \<exists>x. heap w c = Some x
                 \<and> heap w' c = Some (x\<lparr>state := C_SHUTTINGDOWN\<rparr>))
          \<and> (\<forall>c\<in>set xs. \<forall>x rb. heap w c = Some x \<longrightarrow> remote_bev x = Some rb \<longrightarrow>
                (\<exists>be. bevs w rb = Some be
                   \<and> bevs w' rb = Some (be\<lparr>be_read_enabled := False, be_flushed := True\<rparr>)))
          \<and> (\<forall>c\<in>set xs. \<forall>x lb. heap w c = Some x \<longrightarrow> local_bev x = Some lb \<longrightarrow>
                bevs w' lb = bevs w lb)
          \<and> (\<forall>b. output_of w' b = output_of w b)
          \<and> (\<forall>evs. run P w' evs = Some (Inr w'))
          \<and> (is_timer (watch_parent w) \<and> main_loop w \<noteq> Loop_break
                \<and> (\<forall>c\<in>set xs. \<forall>x. heap w c = Some x \<longrightarrow> resolver_req x = None) \<longrightarrow>
               (\<forall>evs. main_dispatch P w (Timer_tick ppid # evs) = Some (Inr EXIT_SUCCESS)))))"
proof (intro conjI impI)
  assume "install_parent_watcher P env = None \<and> 0 \<le> read_len env \<and> ssl_init env"
  then show "\<exists>w0. main_startup P env = Inr w0 \<and> watch_parent w0 = Some (Watch_timer 5)
            \<and> parent_pid w0 = getppid env"
    by (simp add: main_startup_def)
next
  assume "is_timer (watch_parent w)"
  then show "fire P w (Timer_tick ppid) = check_parent ppid w" by simp
next
  assume "ppid = parent_pid w"
  then show "check_parent ppid w = Some (Inr w)" by (simp add: check_parent_def)
next
  assume ne: "ppid \<noteq> parent_pid w"
  define w' where "w' = closed_world False xs w\<lparr>main_loop := Loop_break\<rparr>"
  have 1: "check_parent ppid w = Some (Inr w')"
    unfolding w'_def by (rule check_parent_eval [OF reg own ne])
  have 2: "\<forall>c\<in>set xs. \<exists>x. heap w c = Some x \<and> heap w' c = Some (x\<lparr>state := C_SHUTTINGDOWN\<rparr>)"
  proof
    fix c assume c: "c \<in> set xs"
    with reg obtain x where "heap w c = Some x" by (auto simp: registry_def)
    with c show "\<exists>x. heap w c = Some x \<and> heap w' c = Some (x\<lparr>state := C_SHUTTINGDOWN\<rparr>)"
      by (simp add: w'_def)
  qed
  have 3: "\<forall>c\<in>set xs. \<forall>x rb. heap w c = Some x \<longrightarrow> remote_bev x = Some rb \<longrightarrow>
                (\<exists>be. bevs w rb = Some be
                   \<and> bevs w' rb = Some (be\<lparr>be_read_enabled := False, be_flushed := True\<rparr>))"
  proof (intro ballI allI impI)
    fix c x rb assume c: "c \<in> set xs" and x: "heap w c = Some x" and r: "remote_bev x = Some rb"
    from own c x have "slots_ok w x" by (simp add: slots_owned_def)
    with r obtain be where be: "bevs w rb = Some be"
      by (auto simp: slots_ok_def live_bev_def split: option.splits)
    from registered_remote_target [OF c x r] be
    show "\<exists>be. bevs w rb = Some be
                   \<and> bevs w' rb = Some (be\<lparr>be_read_enabled := False, be_flushed := True\<rparr>)"
      by (simp add: w'_def qmap_def quiesce_def)
  qed
  have 4: "\<forall>c\<in>set xs. \<forall>x lb. heap w c = Some x \<longrightarrow> local_bev x = Some lb \<longrightarrow>
                bevs w' lb = bevs w lb"
  proof (intro ballI allI impI)
    fix c x lb assume "c \<in> set xs" "heap w c = Some x" "local_bev x = Some lb"
    from local_not_remote_target [OF own this] show "bevs w' lb = bevs w lb"
      by (simp add: w'_def qmap_def)
  qed
  have 5: "\<forall>b. output_of w' b = output_of w b"
    by (simp add: w'_def output_of_closed)
  have "main_loop w' = Loop_break" by (simp add: w'_def)
  then have 6: "\<forall>evs. run P w' evs = Some (Inr w')" by (simp add: run_break)
  have 7: "is_timer (watch_parent w) \<and> main_loop w \<noteq> Loop_break
                \<and> (\<forall>c\<in>set xs. \<forall>x. heap w c = Some x \<longrightarrow> resolver_req x = None) \<longrightarrow>
               (\<forall>evs. main_dispatch P w (Timer_tick ppid # evs) = Some (Inr EXIT_SUCCESS))"
    using dispatch_after_break [OF reg own _ ne] by blast
  from 1 2 3 4 5 6 7
  show "\<exists>w'. check_parent ppid w = Some (Inr w')
          \<and> w' = closed_world False xs w\<lparr>main_loop := Loop_break\<rparr>
          \<and> (\<forall>c\<in>set xs. \<exists>x. heap w c = Some x
                 \<and> heap w' c = Some (x\<lparr>state := C_SHUTTINGDOWN\<rparr>))
          \<and> (\<forall>c\<in>set xs. \<forall>x rb. heap w c = Some x \<longrightarrow> remote_bev x = Some rb \<longrightarrow>
                (\<exists>be. bevs w rb = Some be
                   \<and> bevs w' rb = Some (be\<lparr>be_read_enabled := False, be_flushed := True\<rparr>)))
          \<and> (\<forall>c\<in>set xs. \<forall>x lb. heap w c = Some x \<longrightarrow> local_bev x = Some lb \<longrightarrow>
                bevs w' lb = bevs w lb)
          \<and> (\<forall>b. output_of w' b = output_of w b)
          \<and> (\<forall>evs. run P w' evs = Some (Inr w'))
          \<and> (is_timer (watch_parent w) \<and> main_loop w \<noteq> Loop_break
                \<and> (\<forall>c\<in>set xs. \<forall>x. heap w c = Some x \<longrightarrow> resolver_req x = None) \<longrightarrow>
               (\<forall>evs. main_dispatch P w (Timer_tick ppid # evs) = Some (Inr EXIT_SUCCESS)))"
    unfolding w'_def by (intro exI [of _ "closed_world False xs w\<lparr>main_loop := Loop_break\<rparr>"] conjI refl)
qed

text \<open>An instance: the concrete run with one established connection, whose remote
  bufferevent is 0 and whose local bufferevent is 1 and which has no lookup pending; the
  parent had the process id 7.\<close>

theorem check_parent_polling_example:
  "registry demo_established [0]
   \<and> (case bevs demo_established 0 of None \<Rightarrow> False
       | Some be \<Rightarrow> \<not> be_freed be \<and> be_cbarg be = Some 0)
   \<and> (case bevs demo_established 1 of None \<Rightarrow> False
       | Some be \<Rightarrow> \<not> be_freed be \<and> be_cbarg be = Some 0)
   \<and> install_parent_watcher (demo_platform send_all) (demo_startup 200) = None
   \<and> 0 \<le> read_len (demo_startup 200) \<and> ssl_init (demo_startup 200)
   \<and> (\<exists>w0. main_startup (demo_platform send_all) (demo_startup 200) = Inr w0
          \<and> watch_parent w0 = Some (Watch_timer 5) \<and> parent_pid w0 = 7)
   \<and> is_timer (watch_parent demo_established) \<and> main_loop demo_established \<noteq> Loop_break
   \<and> parent_pid demo_established = 7
   \<and> check_parent 7 demo_established = Some (Inr demo_established)
   \<and> (\<exists>w' x rbe. check_parent 1 demo_established = Some (Inr w')
          \<and> heap demo_established 0 = Some x \<and> state x = C_ESTABLISHED
          \<and> remote_bev x = Some 0 \<and> local_bev x = Some 1
          \<and> heap w' 0 = Some (x\<lparr>state := C_SHUTTINGDOWN\<rparr>)
          \<and> bevs demo_established 0 = Some rbe
          \<and> bevs w' 0 = Some (rbe\<lparr>be_read_enabled := False, be_flushed := True\<rparr>)
          \<and> bevs w' 1 = bevs demo_established 1
          \<and> output_of w' 1 = output_of demo_established 1
          \<and> run (demo_platform send_all) w' [Listener_ready (demo_accept 2) True] = Some (Inr w'))
   \<and> main_dispatch (demo_platform send_all) demo_established
        [Timer_tick 1, Listener_ready (demo_accept 2) True] = Some (Inr EXIT_SUCCESS)"
proof -
  define x where "x = \<lparr>state = C_ESTABLISHED, remote_addrfam = 0, remote_addrlen = 16,
           remote_addr = \<lparr>sa_family = 2, sa_data = ''203.0.113.7''\<rparr>,
           remote_host = Some ''client.example.org'', remote_ip = Some ''203.0.113.7'',
           local_bev = Some 1, remote_bev = Some 0,
           resolver_req = None, c_next = None, c_prev = None\<rparr>"
  note F = demo_established_fields [folded x_def]
  have h: "heap demo_established 0 = Some x" by (simp add: F)
  have xs: "state x = C_ESTABLISHED" "remote_bev x = Some 0" "local_bev x = Some 1"
    "resolver_req x = None" "c_next x = None" "c_prev x = None"
    by (simp_all add: x_def)
  have r: "registry demo_established [0]"
    by (auto simp: registry_def F links_of_def xs)
  have b0: "case bevs demo_established 0 of None \<Rightarrow> False
            | Some be \<Rightarrow> \<not> be_freed be \<and> be_cbarg be = Some 0" by code_simp
  have b1: "case bevs demo_established 1 of None \<Rightarrow> False
            | Some be \<Rightarrow> \<not> be_freed be \<and> be_cbarg be = Some 0" by code_simp
  have so: "slots_owned demo_established 0 x"
    using b0 b1 by (auto simp: slots_owned_def slots_ok_def live_bev_def xs split: option.splits)
  have o: "\<forall>c\<in>set [0]. \<forall>x. heap demo_established c = Some x \<longrightarrow> slots_owned demo_established c x"
    using so h by simp
  have e: "install_parent_watcher (demo_platform send_all) (demo_startup 200) = None
      \<and> 0 \<le> read_len (demo_startup 200) \<and> ssl_init (demo_startup 200)"
    by (simp add: install_parent_watcher_def demo_platform_def demo_startup_def)
  have g: "getppid (demo_startup 200) = 7" by (simp add: demo_startup_def)
  have t: "is_timer (watch_parent demo_established)" "main_loop demo_established \<noteq> Loop_break"
    "parent_pid demo_established = 7" "7 = parent_pid demo_established"
    "1 \<noteq> parent_pid demo_established"
    by (simp_all add: F)
  note T = check_parent_polling [OF r o, of "demo_platform send_all" "demo_startup 200"]
  from T [of 7, THEN conjunct1, THEN mp, OF e]
  have 1: "\<exists>w0. main_startup (demo_platform send_all) (demo_startup 200) = Inr w0
          \<and> watch_parent w0 = Some (Watch_timer 5) \<and> parent_pid w0 = 7"
    unfolding g .
  from T [of 7, THEN conjunct2, THEN conjunct2, THEN conjunct1, THEN mp, OF t(4)]
  have 2: "check_parent 7 demo_established = Some (Inr demo_established)" .
  from T [of 1, THEN conjunct2, THEN conjunct2, THEN conjunct2, THEN mp, OF t(5)]
  obtain w' where w': "check_parent 1 demo_established = Some (Inr w')"
    and a: "\<forall>c\<in>set [0]. \<exists>x. heap demo_established c = Some x
                 \<and> heap w' c = Some (x\<lparr>state := C_SHUTTINGDOWN\<rparr>)"
    and b: "\<forall>c\<in>set [0]. \<forall>x rb. heap demo_established c = Some x \<longrightarrow> remote_bev x = Some rb \<longrightarrow>
                (\<exists>be. bevs demo_established rb = Some be
                   \<and> bevs w' rb = Some (be\<lparr>be_read_enabled := False, be_flushed := True\<rparr>))"
    and c: "\<forall>c\<in>set [0]. \<forall>x lb. heap demo_established c = Some x \<longrightarrow> local_bev x = Some lb \<longrightarrow>
                bevs w' lb = bevs demo_established lb"
    and d: "\<forall>b. output_of w' b = output_of demo_established b"
    and s: "\<forall>evs. run (demo_platform send_all) w' evs = Some (Inr w')"
    and m: "is_timer (watch_parent demo_established) \<and> main_loop demo_established \<noteq> Loop_break
               \<and> (\<forall>c\<in>set [0]. \<forall>x. heap demo_established c = Some x \<longrightarrow> resolver_req x = None) \<longrightarrow>
               (\<forall>evs. main_dispatch (demo_platform send_all) demo_established (Timer_tick 1 # evs)
                   = Some (Inr EXIT_SUCCESS))"
    by blast
  from a h have a': "heap w' 0 = Some (x\<lparr>state := C_SHUTTINGDOWN\<rparr>)" by simp
  from b h xs(2) obtain rbe where rbe: "bevs demo_established 0 = Some rbe"
    "bevs w' 0 = Some (rbe\<lparr>be_read_enabled := False, be_flushed := True\<rparr>)"
    by auto
  from c h xs(3) have c': "bevs w' 1 = bevs demo_established 1" by auto
  from d have d': "output_of w' 1 = output_of demo_established 1" by blast
  from s have s': "run (demo_platform send_all) w' [Listener_ready (demo_accept 2) True] = Some (Inr w')"
    by blast
  have nr: "\<forall>c\<in>set [0]. \<forall>x. heap demo_established c = Some x \<longrightarrow> resolver_req x = None"
    using h xs(4) by simp
  from m [THEN mp, OF conjI [OF t(1) conjI [OF t(2) nr]], THEN spec]
  have m': "main_dispatch (demo_platform send_all) demo_established
        [Timer_tick 1, Listener_ready (demo_accept 2) True] = Some (Inr EXIT_SUCCESS)" .
  have 3: "\<exists>w' x rbe. check_parent 1 demo_established = Some (Inr w')
          \<and> heap demo_established 0 = Some x \<and> state x = C_ESTABLISHED
          \<and> remote_bev x = Some 0 \<and> local_bev x = Some 1
          \<and> heap w' 0 = Some (x\<lparr>state := C_SHUTTINGDOWN\<rparr>)
          \<and> bevs demo_established 0 = Some rbe
          \<and> bevs w' 0 = Some (rbe\<lparr>be_read_enabled := False, be_flushed := True\<rparr>)
          \<and> bevs w' 1 = bevs demo_established 1
          \<and> output_of w' 1 = output_of demo_established 1
          \<and> run (demo_platform send_all) w' [Listener_ready (demo_accept 2) True] = Some (Inr w')"
    using w' h xs(1,2,3) a' rbe c' d' s'
    by (intro exI [of _ w'] exI [of _ x] exI [of _ rbe]) (simp del: run.simps)
  from r b0 b1 e 1 t(1,2,3) 2 3 m' show ?thesis by blast
qed

section \<open>Exit after the parent is gone\<close>

text \<open>
  C9 (the code differs from the claim). \<^verbatim>\<open>check_parent\<close> does what the claim says: it
  closes the connections as stated in \<open>check_parent_polling\<close> and breaks the loop. The
  exit that follows is not orderly when a reverse lookup is pending. On the concrete
  platform, which polls the parent: a connection is accepted and its handshake completes,
  so that its lookup is pending, and the timer then finds another parent. The loop
  returns with connection 0 in \<^verbatim>\<open>C_SHUTTINGDOWN\<close>, its \<^verbatim>\<open>resolver_req\<close> still set and
  request 0 still pending. \<^verbatim>\<open>main\<close> then frees the resolver base, and with it the
  request, before its cleanup loop, whose \<^verbatim>\<open>free_conn\<close> calls \<^verbatim>\<open>evdns_cancel_request\<close> on
  that request: \<^verbatim>\<open>main\<close> does not reach \<^verbatim>\<open>return EXIT_SUCCESS\<close> in the model, it stops
  with the error of a request used after it was freed. Without a pending lookup (the
  run in which the connection is established first) \<^verbatim>\<open>main\<close> returns \<^verbatim>\<open>EXIT_SUCCESS\<close>.
\<close>

theorem C9_exit_cancels_freed_request:
  "(case run (demo_platform send_all) demo_world
           [Listener_ready (demo_accept 2) True, Bev_event 0 {BEV_EVENT_CONNECTED}, Timer_tick 1] of
      Some (Inr w) \<Rightarrow>
        main_loop w = Loop_break
        \<and> (case heap w 0 of
              Some x \<Rightarrow> state x = C_SHUTTINGDOWN \<and> resolver_req x = Some 0
                \<and> connections w = Some 0
            | None \<Rightarrow> False)
        \<and> (case dns w 0 of Some rq \<Rightarrow> rq_status rq = Req_pending | None \<Rightarrow> False)
        \<and> dns (evdns_base_free (close_ssl_sock w)) 0 = None
        \<and> (case free_conn 0 (evdns_base_free (close_ssl_sock w)) of
              Inl e \<Rightarrow> e = Bad_request 0
            | Inr w' \<Rightarrow> False)
    | _ \<Rightarrow> False)
   \<and> main (demo_platform send_all) (demo_startup 200)
        [Listener_ready (demo_accept 2) True, Bev_event 0 {BEV_EVENT_CONNECTED}, Timer_tick 1]
       = Some (Inl (Bad_request 0))
   \<and> main (demo_platform send_all) (demo_startup 200) (demo_established_events @ [Timer_tick 1])
       = Some (Inr EXIT_SUCCESS)"
  by code_simp

end
